theory Spec2Isabelle
  imports Complex_Main "HOL-Library.Log_Nat"
begin

section \<open>Numbers and vectors\<close>

text \<open>
  The program computes with IEEE floating point (JavaScript numbers, GLSL floats).
  This development reads the numbers as reals: the properties below are the ones of
  the formulas the code writes down, not of their rounding. The one exception is the
  not-pinching growth rule, which is also modelled in double arithmetic, since the
  strictness of its steps depends on the rounding.
\<close>

datatype vec2 = vec2 (ux: real) (uy: real)

datatype vec3 = vec3 (vx: real) (vy: real) (vz: real)

definition vadd :: "vec3 \<Rightarrow> vec3 \<Rightarrow> vec3" where
  "vadd a b = vec3 (vx a + vx b) (vy a + vy b) (vz a + vz b)"

definition vscale :: "vec3 \<Rightarrow> real \<Rightarrow> vec3" where
  "vscale a s = vec3 (vx a * s) (vy a * s) (vz a * s)"

definition vsubs :: "vec3 \<Rightarrow> real \<Rightarrow> vec3" where
  "vsubs a s = vec3 (vx a - s) (vy a - s) (vz a - s)"

section \<open>GLSL built-in functions\<close>

text \<open>
  The shader language's built-ins, as the GLSL ES specification defines them.
  \<open>pow x y\<close> is undefined there for \<open>x < 0\<close>, \<open>atan 0 0\<close> and the
  normalisation of the zero vector likewise; the definitions below give those cases
  the value HOL's total functions have.
\<close>

definition fract :: "real \<Rightarrow> real" where
  "fract x = x - of_int \<lfloor>x\<rfloor>"

definition glsl_floor :: "real \<Rightarrow> real" where
  "glsl_floor x = of_int \<lfloor>x\<rfloor>"

definition clamp :: "real \<Rightarrow> real \<Rightarrow> real \<Rightarrow> real" where
  "clamp x lo hi = min (max x lo) hi"

definition mix :: "real \<Rightarrow> real \<Rightarrow> real \<Rightarrow> real" where
  "mix a b t = a * (1 - t) + b * t"

definition mix3 :: "vec3 \<Rightarrow> vec3 \<Rightarrow> real \<Rightarrow> vec3" where
  "mix3 a b t = vec3 (mix (vx a) (vx b) t) (mix (vy a) (vy b) t) (mix (vz a) (vz b) t)"

definition smoothstep :: "real \<Rightarrow> real \<Rightarrow> real \<Rightarrow> real" where
  "smoothstep edge0 edge1 x =
     (let t = clamp ((x - edge0) / (edge1 - edge0)) 0 1 in t * t * (3 - 2 * t))"

definition glsl_pow :: "real \<Rightarrow> real \<Rightarrow> real" where
  "glsl_pow x y = x powr y"

definition dot2 :: "vec2 \<Rightarrow> vec2 \<Rightarrow> real" where
  "dot2 a b = ux a * ux b + uy a * uy b"

definition length3 :: "vec3 \<Rightarrow> real" where
  "length3 v = sqrt (vx v * vx v + vy v * vy v + vz v * vz v)"

definition normalize3 :: "vec3 \<Rightarrow> vec3" where
  "normalize3 v = vec3 (vx v / length3 v) (vy v / length3 v) (vz v / length3 v)"

text \<open>The two-argument arc tangent \<open>atan(y, x)\<close>: the angle of the point \<open>(x, y)\<close>.\<close>

definition atan2 :: "real \<Rightarrow> real \<Rightarrow> real" where
  "atan2 y x =
     (if 0 < x then arctan (y / x)
      else if x < 0 then (if 0 \<le> y then arctan (y / x) + pi else arctan (y / x) - pi)
      else if 0 < y then pi / 2
      else if y < 0 then - (pi / 2)
      else 0)"

section \<open>The vertex shader of \<open>Rose.tsx\<close>\<close>

record uniforms =
  uTime :: real
  uPetalCount :: real
  uTwist :: real
  uOpenness :: real
  uDetail :: real
  uParticleSize :: real
  uScanY :: real

text \<open>The per-particle attributes of the buffer geometry.\<close>

record particle =
  position :: vec3
  aRandom :: real
  aType :: real
  aDirection :: vec3

definition hash :: "vec2 \<Rightarrow> real" where
  "hash p = fract (sin (dot2 p (vec2 12.9898 78.233)) * 43758.5453)"

definition noise :: "vec2 \<Rightarrow> real" where
  "noise p =
     (let ix = glsl_floor (ux p); iy = glsl_floor (uy p);
          fx0 = fract (ux p); fy0 = fract (uy p);
          fx = fx0 * fx0 * (3 - 2 * fx0);
          fy = fy0 * fy0 * (3 - 2 * fy0)
      in mix (mix (hash (vec2 ix iy)) (hash (vec2 (ix + 1) (iy + 0))) fx)
             (mix (hash (vec2 (ix + 0) (iy + 1))) (hash (vec2 (ix + 1) (iy + 1))) fx) fy)"

definition getTulipDisplacement :: "uniforms \<Rightarrow> vec3 \<Rightarrow> real" where
  "getTulipDisplacement u pos =
     (let spherePos = normalize3 pos;
          theta = atan2 (vz spherePos) (vx spherePos);
          phi = arccos (vy spherePos);
          twistedTheta = theta + phi * uTwist u;
          petals = sin (twistedTheta * uPetalCount u);
          shape = petals;
          bloom = smoothstep 0 1.5 (1.5 - phi) * uOpenness u * petals;
          surfaceNoise =
            noise (vec2 (vx pos * 4 + uTime u * 0.05) (vz pos * 4 + uTime u * 0.05))
              * 0.05 * uDetail u
      in shape * 0.15 + bloom + surfaceNoise)"

text \<open>
  The first part of \<open>main\<close>: the shape field. It returns the displaced position
  (\<open>finalPos\<close>) and the displacement \<open>disp\<close>.
\<close>

definition shapeGeneration :: "uniforms \<Rightarrow> particle \<Rightarrow> vec3 \<times> real" where
  "shapeGeneration u p =
     (let pos = position p in
      if aType p < 0.5 then
        (let disp = getTulipDisplacement u pos;
             normal = normalize3 (vec3 (vx pos) (vy pos * 0.5) (vz pos));
             pos1 = vadd pos (vscale normal disp);
             pos2 = vec3 (vx pos1 + sin (uTime u * 0.3) * 0.1) (vy pos1) (vz pos1)
         in (pos2, disp))
      else
        (let bendFactor0 = (vy pos + 6) / 6;
             bendFactor = glsl_pow bendFactor0 2;
             windX = sin (uTime u * 0.4) * 0.2 * bendFactor;
             windZ = cos (uTime u * 0.3) * 0.1 * bendFactor;
             pos1 = vec3 (vx pos + windX) (vy pos) (vz pos + windZ);
             pos2 = (if aType p > 1.5
                     then vadd pos1 (vscale (vscale (aDirection p) (sin (uTime u * 0.8 + vy pos1))) 0.02)
                     else pos1)
         in (pos2, 0)))"

definition finalPos :: "uniforms \<Rightarrow> particle \<Rightarrow> vec3" where
  "finalPos u p = fst (shapeGeneration u p)"

text \<open>The construction scan: how far the scan plane has passed the particle.\<close>

definition activation :: "uniforms \<Rightarrow> particle \<Rightarrow> real" where
  "activation u p =
     (let verticalDist = vy (finalPos u p) - uScanY u;
          edgeNoise = (aRandom p - 0.5) * 2
      in smoothstep (-1) 1 (verticalDist + edgeNoise))"

definition boxSize :: real where
  "boxSize = 12.5"

definition cornerBase :: "real \<Rightarrow> vec3" where
  "cornerBase r =
     (let cornerID = glsl_floor (r * 4) in
      if cornerID < 0.5 then vec3 boxSize boxSize boxSize
      else if cornerID < 1.5 then vec3 (- boxSize) boxSize boxSize
      else if cornerID < 2.5 then vec3 (- boxSize) boxSize (- boxSize)
      else vec3 boxSize boxSize (- boxSize))"

definition cornerJitter :: "real \<Rightarrow> vec3" where
  "cornerJitter r =
     vscale (vsubs (vec3 (hash (vec2 r 0.1)) (hash (vec2 r 0.2)) (hash (vec2 r 0.3))) 0.5) 0.5"

definition cornerPos :: "real \<Rightarrow> vec3" where
  "cornerPos r = vadd (cornerBase r) (cornerJitter r)"

definition easeT :: "real \<Rightarrow> real" where
  "easeT a = 1 - glsl_pow (1 - a) 4"

text \<open>What \<open>main\<close> hands on: the position it renders and the varyings.\<close>

record vertex_out =
  vPosition :: vec3
  vDisplacement :: real
  vProgress :: real

definition main :: "uniforms \<Rightarrow> particle \<Rightarrow> vertex_out" where
  "main u p =
     \<lparr> vPosition = mix3 (cornerPos (aRandom p)) (finalPos u p) (easeT (activation u p)),
       vDisplacement = snd (shapeGeneration u p),
       vProgress = activation u p \<rparr>"

section \<open>The frame callback of \<open>Rose\<close>\<close>

record RoseConfig =
  color :: string
  petalCount :: real
  twist :: real
  openness :: real
  detail :: real
  speed :: real
  particleSize :: real

text \<open>\<open>THREE.MathUtils.lerp\<close>, as three.js defines it.\<close>

definition lerp :: "real \<Rightarrow> real \<Rightarrow> real \<Rightarrow> real" where
  "lerp x y t = (1 - t) * x + t * y"

definition scanY :: "real \<Rightarrow> real" where
  "scanY growth = lerp 10 (-12) growth"

text \<open>
  \<open>useFrame\<close> of \<open>Rose\<close>, for a mounted point cloud: the uniforms of the frame,
  from the configuration, the elapsed time and the growth reference (an optional
  property of the component; the scan height keeps its previous value without it).
  The colour uniform is left out: no position depends on it.
\<close>

definition useFrame :: "RoseConfig \<Rightarrow> real option \<Rightarrow> real \<Rightarrow> uniforms \<Rightarrow> uniforms" where
  "useFrame config growthRef elapsed u =
     \<lparr> uTime = elapsed * speed config,
       uPetalCount = petalCount config,
       uTwist = twist config,
       uOpenness = openness config,
       uDetail = detail config,
       uParticleSize = particleSize config,
       uScanY = (case growthRef of Some growth \<Rightarrow> scanY growth | None \<Rightarrow> uScanY u) \<rparr>"

section \<open>The particle geometry of \<open>Rose\<close>\<close>

text \<open>
  The three loops that fill the attribute buffers. \<open>Math.random()\<close> is read as a
  stream \<open>rnd\<close> of draws, consumed in the order of the loops: one draw for a head
  particle, two for a stem particle (angle, seed), three for a leaf particle
  (\<open>u\<close>, \<open>v\<close>, seed).
\<close>

definition flowerCount :: nat where
  "flowerCount = 120000"

definition stemCount :: nat where
  "stemCount = 30000"

definition leafCount :: nat where
  "leafCount = 40000"

definition leaves :: nat where
  "leaves = 3"

definition ptsPerLeaf :: nat where
  "ptsPerLeaf = leafCount div leaves"

definition headParticle :: "nat \<Rightarrow> real \<Rightarrow> particle" where
  "headParticle i seed =
     (let offset = 2 / real flowerCount;
          increment = pi * (3 - sqrt 5);
          yRaw = ((real i * offset) - 1) + (offset / 2);
          rRaw = sqrt (1 - yRaw ^ 2);
          phi = real ((i + 1) mod flowerCount) * increment;
          x = cos phi * rRaw;
          z = sin phi * rRaw;
          y = yRaw * 2 + 1
      in \<lparr> position = vec3 x y z, aRandom = seed, aType = 0, aDirection = vec3 x y z \<rparr>)"

definition stemParticle :: "nat \<Rightarrow> real \<Rightarrow> real \<Rightarrow> particle" where
  "stemParticle i r seed =
     (let stemLength = 7; stemRadius = 0.08;
          t = real i / real stemCount;
          y = -1 - (t * stemLength);
          curveX = sin (y * 0.2) * 0.1;
          theta = r * pi * 2;
          rad = stemRadius * (1 - t * 0.1);
          x = curveX + cos theta * rad;
          z = sin theta * rad
      in \<lparr> position = vec3 x y z, aRandom = seed, aType = 1,
           aDirection = vec3 (cos theta) 0 (sin theta) \<rparr>)"

definition leafParticle :: "nat \<Rightarrow> real \<Rightarrow> real \<Rightarrow> real \<Rightarrow> particle" where
  "leafParticle l u r seed =
     (let attachY = -6 + (real l * 1);
          leafAngle = real l * 2.1;
          leafDirX = cos leafAngle;
          leafDirZ = sin leafAngle;
          v = r * 2 - 1;
          width = 0.5 * (1 - u ^ 2) * sin (u * 3.14);
          actualWidth = width * v;
          h = u * 4.5;
          bendOut = sin (u * 3.14 * 0.5) * 0.8;
          lx = actualWidth;
          lz = 0.1 + bendOut;
          rx = leafDirX; rz = leafDirZ;
          tx = - leafDirZ; tz = leafDirX;
          px = (rx * lz) + (tx * lx);
          pz = (rz * lz) + (tz * lx);
          py = attachY + h
      in \<lparr> position = vec3 px py pz, aRandom = seed, aType = 2,
           aDirection = vec3 px 0 pz \<rparr>)"

definition geometry :: "(nat \<Rightarrow> real) \<Rightarrow> particle list" where
  "geometry rnd =
     map (\<lambda>i. headParticle i (rnd i)) [0..<flowerCount]
     @ map (\<lambda>i. stemParticle i (rnd (flowerCount + 2 * i)) (rnd (flowerCount + 2 * i + 1)))
         [0..<stemCount]
     @ concat (map (\<lambda>l. map (\<lambda>i.
           (let n = flowerCount + 2 * stemCount + 3 * (l * ptsPerLeaf + i)
            in leafParticle l (rnd n) (rnd (n + 1)) (rnd (n + 2))))
         [0..<ptsPerLeaf]) [0..<leaves])"

section \<open>The component tree: \<open>RoseExperience\<close> and \<open>Rose\<close>\<close>

text \<open>
  The attributes \<open>RoseExperience\<close> writes on the \<open>Rose\<close> element. \<open>Rose\<close> is
  declared with \<open>RoseProps\<close> (\<open>config\<close>, \<open>growthRef\<close>) and reads those two only.
\<close>

record rose_element =
  elConfig :: RoseConfig
  elGrowthRef :: "real option"
  elDistortPosRef :: vec3
  elDistortActiveRef :: bool

definition Rose :: "rose_element \<Rightarrow> real \<Rightarrow> uniforms \<Rightarrow> particle \<Rightarrow> vertex_out" where
  "Rose el elapsed u p = main (useFrame (elConfig el) (elGrowthRef el) elapsed u) p"

record distortion_state =
  cursorX :: real
  cursorY :: real
  active :: bool

text \<open>
  \<open>InteractionHandler\<close> and \<open>handleCursorUpdate\<close>: the cursor position is the ray of
  the camera through the cursor, cut with the plane \<open>z = 0\<close>. The ray cast is the
  renderer's: \<open>hit\<close> is its result, \<open>prev\<close> the position kept from earlier frames.
\<close>

definition handleCursorUpdate :: "distortion_state \<Rightarrow> vec3 \<Rightarrow> vec3 \<Rightarrow> vec3 \<times> bool" where
  "handleCursorUpdate d hit prev = (if active d then (hit, True) else (prev, False))"

definition RoseExperience ::
  "RoseConfig \<Rightarrow> real option \<Rightarrow> distortion_state \<Rightarrow> vec3 \<Rightarrow> vec3 \<Rightarrow> real \<Rightarrow> uniforms
     \<Rightarrow> particle \<Rightarrow> vertex_out" where
  "RoseExperience config growthRef d hit prev elapsed u p =
     Rose \<lparr> elConfig = config, elGrowthRef = growthRef,
            elDistortPosRef = fst (handleCursorUpdate d hit prev),
            elDistortActiveRef = snd (handleCursorUpdate d hit prev) \<rparr> elapsed u p"

section \<open>The gesture interpreter of \<open>App.tsx\<close>\<close>

record landmark =
  lmx :: real
  lmy :: real

type_synonym hand = "landmark list"

record app_state =
  growth :: real
  distortion :: distortion_state
  isPinching :: bool
  isDistorting :: bool
  loading :: bool
  permissionError :: bool
  lastVideoTime :: real
  handLandmarker :: bool
  loadedListener :: bool

text \<open>
  The state of the component when it mounts: \<open>loading\<close> is true, the growth \<open>0\<close>,
  the distortion inactive, no detector yet and no video listener.
\<close>

definition initialState :: app_state where
  "initialState =
     \<lparr> growth = 0, distortion = \<lparr> cursorX = 0, cursorY = 0, active = False \<rparr>,
       isPinching = False, isDistorting = False, loading = True, permissionError = False,
       lastVideoTime = -1, handLandmarker = False, loadedListener = False \<rparr>"

subsection \<open>Camera and detector start-up\<close>

text \<open>
  What \<open>getUserMedia\<close> does: the browser has no media devices (nothing is asked),
  the promise rejects (permission denied, or no camera could be opened), or it
  yields a stream; \<open>Granted v\<close> says whether the video element is mounted.
\<close>

datatype camera_outcome = NoMediaDevices | Rejected | Granted bool

definition startCamera :: "app_state \<Rightarrow> camera_outcome \<Rightarrow> app_state" where
  "startCamera st out =
     (let st1 = st\<lparr> permissionError := False, loading := True \<rparr> in
      case out of
        NoMediaDevices \<Rightarrow> st1
      | Rejected \<Rightarrow> st1\<lparr> permissionError := True, loading := False, growth := 1 \<rparr>
      | Granted v \<Rightarrow> (if v then st1\<lparr> loadedListener := True \<rparr> else st1))"

datatype init_outcome = InitFailed | InitOk camera_outcome

definition setupMediaPipe :: "app_state \<Rightarrow> init_outcome \<Rightarrow> app_state" where
  "setupMediaPipe st out =
     (case out of
        InitFailed \<Rightarrow> st\<lparr> loading := False, growth := 1 \<rparr>
      | InitOk c \<Rightarrow> startCamera (st\<lparr> handLandmarker := True \<rparr>) c)"

subsection \<open>One detection pass\<close>

definition aspectRatio :: real where
  "aspectRatio = 640 / 480"

definition hypot :: "real \<Rightarrow> real \<Rightarrow> real" where
  "hypot a b = sqrt (a * a + b * b)"

definition pinchDist :: "landmark \<Rightarrow> landmark \<Rightarrow> real" where
  "pinchDist thumb index = hypot ((lmx thumb - lmx index) * aspectRatio) (lmy thumb - lmy index)"

text \<open>The statement \<open>g += (target - g) * k\<close>, written three times in the source.\<close>

definition smoothToward :: "real \<Rightarrow> real \<Rightarrow> real \<Rightarrow> real" where
  "smoothToward g target k = g + (target - g) * k"

definition targetGrowth :: "real \<Rightarrow> real" where
  "targetGrowth pinchY =
     (let minY = 0.2; maxY = 0.8;
          rawProgress = (pinchY - minY) / (maxY - minY);
          t0 = max 0 (min 1 rawProgress);
          t1 = (if t0 > 0.85 then 1 else t0);
          t2 = (if t1 < 0.15 then 0 else t1)
      in t2)"

definition pinchGrowth :: "real \<Rightarrow> real \<Rightarrow> real" where
  "pinchGrowth g pinchY = smoothToward g (targetGrowth pinchY) 0.15"

definition releaseGrowth :: "real \<Rightarrow> real" where
  "releaseGrowth g =
     (if g > 0.85 then smoothToward g 1 0.1
      else if g < 0.15 then smoothToward g 0 0.1
      else g)"

text \<open>
  The two blocks of the pass. A hand is the list of its landmarks; reading landmark
  \<open>4\<close> or \<open>8\<close> of a shorter list throws, and so does \<open>drawHand\<close> (called when the
  canvas has a context) on fewer than \<open>21\<close> landmarks. \<open>Inl\<close> is the state at the
  throw, \<open>Inr\<close> the state at the end of the block.
\<close>

definition controlHand :: "bool \<Rightarrow> hand list \<Rightarrow> app_state \<Rightarrow> app_state + app_state" where
  "controlHand ctx hands st =
     (if length hands > 0 then
        (let landmarks = hands ! 0 in
         if length landmarks \<le> 8 then Inl st
         else
           (let thumb = landmarks ! 4;
                index = landmarks ! 8;
                pinching = (pinchDist thumb index < 0.06);
                st1 = st\<lparr> isPinching := pinching \<rparr>;
                st2 = (if pinching
                       then st1\<lparr> growth := pinchGrowth (growth st1) ((lmy thumb + lmy index) / 2) \<rparr>
                       else st1\<lparr> growth := releaseGrowth (growth st1) \<rparr>)
            in if ctx \<and> length landmarks < 21 then Inl st2 else Inr st2))
      else Inr (st\<lparr> isPinching := False \<rparr>))"

definition distortHand :: "bool \<Rightarrow> hand list \<Rightarrow> app_state \<Rightarrow> app_state + app_state" where
  "distortHand ctx hands st =
     (if length hands > 1 then
        (let landmarks = hands ! 1 in
         if length landmarks \<le> 8 then Inl st
         else
           (let thumb = landmarks ! 4;
                index = landmarks ! 8;
                pinching = (pinchDist thumb index < 0.06);
                st1 = st\<lparr> isDistorting := pinching \<rparr>;
                midX = (lmx thumb + lmx index) / 2;
                midY = (lmy thumb + lmy index) / 2;
                st2 = st1\<lparr> distortion :=
                        \<lparr> cursorX = 1 - 2 * midX, cursorY = 1 - 2 * midY, active = pinching \<rparr> \<rparr>
            in if ctx \<and> length landmarks < 21 then Inl st2 else Inr st2))
      else Inr (st\<lparr> isDistorting := False,
                     distortion := (distortion st)\<lparr> active := False \<rparr> \<rparr>))"

text \<open>
  The body of the \<open>try\<close>: \<open>detections.landmarks\<close> may be missing; an exception of
  either block ends the pass with the state as it is (the \<open>catch\<close> is empty).
\<close>

definition detectionPass :: "bool \<Rightarrow> hand list option \<Rightarrow> app_state \<Rightarrow> app_state" where
  "detectionPass ctx lms st =
     (case lms of
        None \<Rightarrow> st
      | Some hands \<Rightarrow>
          (case controlHand ctx hands st of
             Inl s \<Rightarrow> s
           | Inr s \<Rightarrow> (case distortHand ctx hands s of Inl s' \<Rightarrow> s' | Inr s' \<Rightarrow> s')))"

subsection \<open>The animation-frame callback\<close>

datatype detect_result = DetectError | Detections "hand list option"

record video_frame =
  videoMounted :: bool
  currentTime :: real
  detect :: detect_result
  canvasCtx :: bool

definition predictWebcam :: "app_state \<Rightarrow> video_frame \<Rightarrow> app_state" where
  "predictWebcam st f =
     (if videoMounted f \<and> handLandmarker st then
        (if currentTime f \<noteq> lastVideoTime st then
           (let st1 = st\<lparr> lastVideoTime := currentTime f \<rparr> in
            case detect f of
              DetectError \<Rightarrow> st1
            | Detections lms \<Rightarrow> detectionPass (canvasCtx f) lms st1)
         else st)
      else st)"

definition runFrames :: "app_state \<Rightarrow> video_frame list \<Rightarrow> app_state" where
  "runFrames st fs = foldl predictWebcam st fs"

section \<open>The not-pinching rule in double arithmetic\<close>

text \<open>
  JavaScript numbers are IEEE 754 doubles. A finite double is \<open>mant * 2 ^ expo\<close> for
  whole numbers \<open>mant\<close> and \<open>expo\<close>; \<open>round53\<close> rounds an exact result to the nearest
  double, ties to the even mantissa: to 53 bits, or to the spacing \<open>2 ^ -1074\<close> of the
  subnormal range (overflow does not arise for a growth in \<open>[0,1]\<close> and is left out).
  Sum, difference and product are the exact ones, rounded. The literals \<open>0.1\<close>,
  \<open>0.85\<close>, \<open>0.15\<close> and \<open>0.9\<close> are the doubles nearest to them. \<open>releaseGrowthD\<close> is
  lines 191 and 192 of \<open>App.tsx\<close> in this arithmetic; \<open>releaseGrowth\<close> above is the
  same rule in exact arithmetic.
\<close>

datatype double = Double (mant: int) (expo: int)

text \<open>The real number a double stands for.\<close>

definition valueOf :: "double \<Rightarrow> real" where
  "valueOf d = (if 0 \<le> expo d then real_of_int (mant d) * 2 ^ nat (expo d)
                else real_of_int (mant d) / 2 ^ nat (- expo d))"

text \<open>\<open>m / 2 ^ k\<close> rounded to the nearest whole number, ties to even (\<open>k \<ge> 1\<close>).\<close>

definition roundShift :: "int \<Rightarrow> nat \<Rightarrow> int" where
  "roundShift m k =
     (let q = m div 2 ^ k; r = m mod 2 ^ k; h = 2 ^ (k - 1)
      in if h < r \<or> (r = h \<and> odd q) then q + 1 else q)"

definition round53 :: "int \<Rightarrow> int \<Rightarrow> double" where
  "round53 m e =
     (let k = max (bitlen \<bar>m\<bar> - 53) (- 1074 - e)
      in if k \<le> 0 then Double m e else Double (roundShift m (nat k)) (e + k))"

definition dadd :: "double \<Rightarrow> double \<Rightarrow> double" where
  "dadd a b =
     (let e = min (expo a) (expo b)
      in round53 (mant a * 2 ^ nat (expo a - e) + mant b * 2 ^ nat (expo b - e)) e)"

definition dsub :: "double \<Rightarrow> double \<Rightarrow> double" where
  "dsub a b = dadd a (Double (- mant b) (expo b))"

definition dmul :: "double \<Rightarrow> double \<Rightarrow> double" where
  "dmul a b = round53 (mant a * mant b) (expo a + expo b)"

definition dless :: "double \<Rightarrow> double \<Rightarrow> bool" where
  "dless a b =
     (let e = min (expo a) (expo b)
      in mant a * 2 ^ nat (expo a - e) < mant b * 2 ^ nat (expo b - e))"

definition dZero :: double where "dZero = Double 0 0"
definition dOne :: double where "dOne = Double 1 0"
definition d0_1 :: double where "d0_1 = Double 3602879701896397 (- 55)"
definition d0_85 :: double where "d0_85 = Double 7656119366529843 (- 53)"
definition d0_15 :: double where "d0_15 = Double 5404319552844595 (- 55)"
definition d0_9 :: double where "d0_9 = Double 8106479329266893 (- 53)"

definition releaseGrowthD :: "double \<Rightarrow> double" where
  "releaseGrowthD g =
     (if dless d0_85 g then dadd g (dmul (dsub dOne g) d0_1)
      else if dless g d0_15 then dadd g (dmul (dsub dZero g) d0_1)
      else g)"

section \<open>Definitions used by the statements\<close>

text \<open>The growth after \<open>n\<close> ticks of the smoothing statement with a constant target.\<close>

definition smoothTicks :: "real \<Rightarrow> real \<Rightarrow> nat \<Rightarrow> real \<Rightarrow> real" where
  "smoothTicks target k n g = ((\<lambda>x. smoothToward x target k) ^^ n) g"

text \<open>A frame of a mounted video at time \<open>t\<close> in which no hand is detected.\<close>

definition noHandFrame :: "real \<Rightarrow> video_frame" where
  "noHandFrame t = \<lparr> videoMounted = True, currentTime = t, detect = Detections (Some []),
                    canvasCtx = True \<rparr>"

text \<open>A hand of 21 landmarks with the thumb tip at the origin and the index tip away from it.\<close>

definition openHand :: hand where
  "openHand = (replicate 21 \<lparr> lmx = 0, lmy = 0 \<rparr>)[8 := \<lparr> lmx = 3/4, lmy = 0 \<rparr>]"

text \<open>A hand whose 21 landmarks all sit at one point: thumb and index tips touch.\<close>

definition pinchedHand :: "real \<Rightarrow> real \<Rightarrow> hand" where
  "pinchedHand x y = replicate 21 \<lparr> lmx = x, lmy = y \<rparr>"

text \<open>The configuration \<open>App\<close> passes down, and the uniforms \<open>Rose\<close> starts with.\<close>

definition CINEMATIC_CONFIG :: RoseConfig where
  "CINEMATIC_CONFIG =
     \<lparr> color = ''#7c00ff'', petalCount = 3, twist = 0.8, openness = 0.6, detail = 0.5,
       speed = 0.15, particleSize = 0.022 \<rparr>"

definition initialUniforms :: "RoseConfig \<Rightarrow> uniforms" where
  "initialUniforms config =
     \<lparr> uTime = 0, uPetalCount = petalCount config, uTwist = twist config,
       uOpenness = openness config, uDetail = detail config,
       uParticleSize = particleSize config, uScanY = 10 \<rparr>"

text \<open>The four emitters of \<open>ConstructionZone\<close>, in the order of the source.\<close>

definition corners :: "vec3 list" where
  "corners = [vec3 boxSize boxSize boxSize, vec3 (- boxSize) boxSize boxSize,
              vec3 (- boxSize) boxSize (- boxSize), vec3 boxSize boxSize (- boxSize)]"

text \<open>
  The rotation of a position about the vertical axis by the angle \<open>\<alpha>\<close>: it adds
  \<open>\<alpha>\<close> to the azimuth and keeps the height. This is the motion the periodicity
  property speaks of; the source has no such function.
\<close>

definition rotateY :: "real \<Rightarrow> vec3 \<Rightarrow> vec3" where
  "rotateY \<alpha> p = vec3 (vx p * cos \<alpha> - vz p * sin \<alpha>) (vy p) (vx p * sin \<alpha> + vz p * cos \<alpha>)"

text \<open>The surface-noise term of \<open>getTulipDisplacement\<close>.\<close>

definition surfaceNoise :: "uniforms \<Rightarrow> vec3 \<Rightarrow> real" where
  "surfaceNoise u pos =
     noise (vec2 (vx pos * 4 + uTime u * 0.05) (vz pos * 4 + uTime u * 0.05)) * 0.05 * uDetail u"

text \<open>The rest of \<open>getTulipDisplacement\<close>: the fold and the bloom of the petal pattern.\<close>

definition petalTerm :: "uniforms \<Rightarrow> vec3 \<Rightarrow> real" where
  "petalTerm u pos =
     (let spherePos = normalize3 pos;
          theta = atan2 (vz spherePos) (vx spherePos);
          phi = arccos (vy spherePos);
          twistedTheta = theta + phi * uTwist u;
          petals = sin (twistedTheta * uPetalCount u);
          shape = petals;
          bloom = smoothstep 0 1.5 (1.5 - phi) * uOpenness u * petals
      in shape * 0.15 + bloom)"

text \<open>Uniforms with one and a half petals, no twist, no bloom and no surface noise.\<close>

definition fractionalPetals :: uniforms where
  "fractionalPetals =
     \<lparr> uTime = 0, uPetalCount = 1.5, uTwist = 0, uOpenness = 0, uDetail = 0,
       uParticleSize = 0.022, uScanY = 10 \<rparr>"

text \<open>The configuration of \<open>App\<close> with two petals, at time \<open>0\<close>.\<close>

definition twoPetals :: uniforms where
  "twoPetals = (initialUniforms CINEMATIC_CONFIG)\<lparr> uPetalCount := 2 \<rparr>"

text \<open>
  \<open>climbTo n g\<close> runs \<open>n\<close> ticks of the not-pinching rule from \<open>g\<close> and gives the growth
  reached, provided every one of the ticks strictly raised the growth and left it
  below \<open>1\<close>.
\<close>

fun climbTo :: "nat \<Rightarrow> double \<Rightarrow> double option" where
  "climbTo 0 g = Some g"
| "climbTo (Suc n) g =
     (let g' = releaseGrowthD g
      in if dless g g' \<and> dless g' dOne then climbTo n g' else None)"

definition stallGrowth :: double where
  "stallGrowth = Double 9007199254740988 (- 53)"

section \<open>Theorems\<close>

subsection \<open>The scan plane (C4)\<close>

lemma scanY_linear: "scanY g = 10 - 22 * g"
  by (simp add: scanY_def lerp_def algebra_simps)

text \<open>
  C4: the scan height is \<open>lerp(+10, -12, growth)\<close>, strictly decreasing in the growth,
  \<open>10\<close> at growth \<open>0\<close> and \<open>-12\<close> at growth \<open>1\<close> (so between the two on \<open>[0,1]\<close>);
  and with the scan height of the frame taken from the growth, the activation of every
  particle is \<open>smoothstep(-1, 1, (finalPosition.y - scanY) + (randomSeed - 0.5) * 2)\<close>.
\<close>

theorem C4_scan_height_and_activation:
  "scanY g = lerp 10 (-12) g
   \<and> scanY 0 = 10 \<and> scanY 1 = -12
   \<and> (\<forall>g1 g2. g1 < g2 \<longrightarrow> scanY g2 < scanY g1)
   \<and> (0 \<le> g \<and> g \<le> 1 \<longrightarrow> -12 \<le> scanY g \<and> scanY g \<le> 10)
   \<and> uScanY (useFrame config (Some g) elapsed u0) = scanY g
   \<and> vProgress (main (useFrame config (Some g) elapsed u0) p)
       = smoothstep (-1) 1
           ((vy (finalPos (useFrame config (Some g) elapsed u0) p) - scanY g)
            + (aRandom p - 0.5) * 2)"
proof -
  have mono: "\<forall>g1 g2. g1 < g2 \<longrightarrow> scanY g2 < scanY g1"
    by (simp add: scanY_linear)
  have range: "0 \<le> g \<and> g \<le> 1 \<longrightarrow> -12 \<le> scanY g \<and> scanY g \<le> 10"
    by (simp add: scanY_linear)
  have ends: "scanY 0 = 10 \<and> scanY 1 = -12"
    by (simp add: scanY_linear)
  have frame: "uScanY (useFrame config (Some g) elapsed u0) = scanY g"
    by (simp add: useFrame_def)
  have act: "vProgress (main (useFrame config (Some g) elapsed u0) p)
       = smoothstep (-1) 1
           ((vy (finalPos (useFrame config (Some g) elapsed u0) p) - scanY g)
            + (aRandom p - 0.5) * 2)"
    by (simp add: main_def activation_def frame)
  show ?thesis
    using mono range ends frame act by (simp add: scanY_def)
qed

theorem C4_witness:
  "(0::real) \<le> 1/2 \<and> (1/2::real) \<le> 1 \<and> (1/4::real) < 3/4
   \<and> scanY (3/4) < scanY (1/4) \<and> -12 \<le> scanY (1/2) \<and> scanY (1/2) \<le> 10
   \<and> scanY (1/2) = -1"
proof -
  have "scanY (1/2) = -1"
    by (simp add: scanY_linear)
  moreover have "(1/4::real) < 3/4"
    by simp
  ultimately show ?thesis
    using C4_scan_height_and_activation [of "1/2"] by fastforce
qed

subsection \<open>Growth smoothing and frames without a hand (C7, C2)\<close>

lemma detectionPass_no_hands:
  "detectionPass ctx (Some []) st
     = st\<lparr> isPinching := False, isDistorting := False,
           distortion := (distortion st)\<lparr> active := False \<rparr> \<rparr>"
  by (simp add: detectionPass_def controlHand_def distortHand_def)

lemma predictWebcam_no_hands_growth:
  "detect f = Detections (Some []) \<Longrightarrow> growth (predictWebcam st f) = growth st"
  by (simp add: predictWebcam_def detectionPass_no_hands)

lemma runFrames_no_hands_growth:
  "\<forall>f \<in> set fs. detect f = Detections (Some []) \<Longrightarrow> growth (runFrames st fs) = growth st"
  unfolding runFrames_def
  by (induction fs arbitrary: st) (simp_all add: predictWebcam_no_hands_growth)

lemma smoothTicks_Suc:
  "smoothTicks t k (Suc n) g0 = smoothToward (smoothTicks t k n g0) t k"
  by (simp add: smoothTicks_def)

lemma smoothTicks_closed:
  "smoothTicks t k n g0 = t + (1 - k) ^ n * (g0 - t)"
proof (induction n)
  case 0
  show ?case by (simp add: smoothTicks_def)
next
  case (Suc n)
  have "smoothTicks t k (Suc n) g0 = t + (1 - k) * (smoothTicks t k n g0 - t)"
    by (simp add: smoothTicks_Suc smoothToward_def algebra_simps)
  also have "\<dots> = t + (1 - k) * ((1 - k) ^ n * (g0 - t))"
    by (simp add: Suc.IH)
  finally show ?case by simp
qed

lemma smoothTicks_up:
  assumes "0 < k" "k < 1" "g0 \<le> t"
  shows "smoothTicks t k n g0 \<le> smoothTicks t k (Suc n) g0 \<and> smoothTicks t k (Suc n) g0 \<le> t"
proof -
  have p: "0 \<le> (1 - k) ^ n" "0 \<le> (1 - k) ^ Suc n"
    using assms by simp_all
  have le: "smoothTicks t k n g0 \<le> t"
    using p(1) assms(3) by (simp add: smoothTicks_closed mult_nonneg_nonpos)
  have le': "smoothTicks t k (Suc n) g0 \<le> t"
    using p(2) assms(3) unfolding smoothTicks_closed by (simp add: mult_nonneg_nonpos)
  have "smoothTicks t k (Suc n) g0 = smoothTicks t k n g0 + (t - smoothTicks t k n g0) * k"
    by (simp add: smoothTicks_Suc smoothToward_def)
  moreover have "0 \<le> (t - smoothTicks t k n g0) * k"
    using le assms(1) by simp
  ultimately show ?thesis using le' by simp
qed

lemma smoothTicks_down:
  assumes "0 < k" "k < 1" "t \<le> g0"
  shows "t \<le> smoothTicks t k (Suc n) g0 \<and> smoothTicks t k (Suc n) g0 \<le> smoothTicks t k n g0"
proof -
  have p: "0 \<le> (1 - k) ^ n" "0 \<le> (1 - k) ^ Suc n"
    using assms by simp_all
  have ge: "t \<le> smoothTicks t k n g0"
    using p(1) assms(3) by (simp add: smoothTicks_closed)
  have ge': "t \<le> smoothTicks t k (Suc n) g0"
    using p(2) assms(3) unfolding smoothTicks_closed by simp
  have "smoothTicks t k (Suc n) g0 = smoothTicks t k n g0 + (t - smoothTicks t k n g0) * k"
    by (simp add: smoothTicks_Suc smoothToward_def)
  moreover have "(t - smoothTicks t k n g0) * k \<le> 0"
    using ge assms(1) by (simp add: mult_nonpos_nonneg)
  ultimately show ?thesis using ge' by simp
qed

lemma smoothTicks_within:
  assumes "1/10 \<le> k" "k < 1" "0 \<le> t" "t \<le> 1" "0 \<le> g0" "g0 \<le> 1" "66 \<le> n"
  shows "\<bar>smoothTicks t k n g0 - t\<bar> < 1/1000"
proof -
  have a: "\<bar>g0 - t\<bar> \<le> 1" using assms by (simp add: abs_le_iff)
  have "(1 - k) ^ n \<le> (9/10) ^ n"
    using assms by (intro power_mono) simp_all
  also have "\<dots> \<le> (9/10) ^ 66"
    using assms(7) by (intro power_decreasing) simp_all
  also have "\<dots> < (1/1000::real)"
    by (simp add: power_divide)
  finally have b: "(1 - k) ^ n < 1/1000" .
  have "\<bar>smoothTicks t k n g0 - t\<bar> = (1 - k) ^ n * \<bar>g0 - t\<bar>"
    using assms by (simp add: smoothTicks_closed abs_mult)
  also have "\<dots> \<le> (1 - k) ^ n * 1"
    using a assms by (intro mult_left_mono) simp_all
  finally show ?thesis using b by simp
qed

lemma release_fixed: "releaseGrowth 0 = 0 \<and> releaseGrowth 1 = 1"
  by (simp add: releaseGrowth_def smoothToward_def)

lemma valueOf_powr: "valueOf d = real_of_int (mant d) * 2 powr real_of_int (expo d)"
proof (cases "0 \<le> expo d")
  case True
  then have "2 powr real_of_int (expo d) = 2 powr real (nat (expo d))"
    by simp
  also have "\<dots> = 2 ^ nat (expo d)"
    by (simp add: powr_realpow)
  finally show ?thesis
    using True by (simp add: valueOf_def)
next
  case False
  then have "2 powr real_of_int (expo d) = 2 powr (- real (nat (- expo d)))"
    by simp
  also have "\<dots> = inverse (2 ^ nat (- expo d))"
    by (simp only: powr_minus) (simp add: powr_realpow)
  finally show ?thesis
    using False by (simp add: valueOf_def divide_inverse)
qed

lemma valueOf_align:
  assumes "e \<le> expo d"
  shows "valueOf d = real_of_int (mant d * 2 ^ nat (expo d - e)) * 2 powr real_of_int e"
proof -
  have "2 powr real_of_int (expo d) = 2 powr (real (nat (expo d - e)) + real_of_int e)"
    using assms by simp
  also have "\<dots> = 2 ^ nat (expo d - e) * 2 powr real_of_int e"
    by (simp only: powr_add) (simp add: powr_realpow)
  finally show ?thesis
    by (simp add: valueOf_powr)
qed

lemma dless_iff: "dless a b \<longleftrightarrow> valueOf a < valueOf b"
proof -
  define e where "e = min (expo a) (expo b)"
  have a: "valueOf a = real_of_int (mant a * 2 ^ nat (expo a - e)) * 2 powr real_of_int e"
    by (rule valueOf_align) (simp add: e_def)
  have b: "valueOf b = real_of_int (mant b * 2 ^ nat (expo b - e)) * 2 powr real_of_int e"
    by (rule valueOf_align) (simp add: e_def)
  have p: "(0::real) < 2 powr real_of_int e"
    by simp
  have "valueOf a < valueOf b
          \<longleftrightarrow> real_of_int (mant a * 2 ^ nat (expo a - e)) < real_of_int (mant b * 2 ^ nat (expo b - e))"
    unfolding a b using p by (simp only: mult_less_cancel_right_pos)
  also have "\<dots> \<longleftrightarrow> mant a * 2 ^ nat (expo a - e) < mant b * 2 ^ nat (expo b - e)"
    by (simp only: of_int_less_iff)
  finally show ?thesis
    by (simp add: dless_def e_def Let_def)
qed

lemma climbTo_orbit:
  assumes "climbTo k g = Some s"
  shows "(releaseGrowthD ^^ k) g = s"
    and "\<forall>n<k. dless ((releaseGrowthD ^^ n) g) ((releaseGrowthD ^^ Suc n) g)
               \<and> dless ((releaseGrowthD ^^ Suc n) g) dOne"
  using assms
proof (induction k arbitrary: g)
  case 0
  {
    case 1
    then show ?case by simp
  next
    case 2
    then show ?case by simp
  }
next
  case (Suc k)
  {
    case 1
    then have c: "climbTo k (releaseGrowthD g) = Some s"
      by (simp add: Let_def split: if_splits)
    show ?case
      using Suc.IH(1) [OF c] by (simp add: funpow_swap1)
  next
    case 2
    then have c: "climbTo k (releaseGrowthD g) = Some s"
      and d: "dless g (releaseGrowthD g)" "dless (releaseGrowthD g) dOne"
      by (simp_all add: Let_def split: if_splits)
    have ih: "\<forall>n<k. dless ((releaseGrowthD ^^ n) (releaseGrowthD g))
                        ((releaseGrowthD ^^ Suc n) (releaseGrowthD g))
               \<and> dless ((releaseGrowthD ^^ Suc n) (releaseGrowthD g)) dOne"
      by (rule Suc.IH(2) [OF c])
    show ?case
    proof (intro allI impI)
      fix n
      assume n: "n < Suc k"
      show "dless ((releaseGrowthD ^^ n) g) ((releaseGrowthD ^^ Suc n) g)
               \<and> dless ((releaseGrowthD ^^ Suc n) g) dOne"
      proof (cases n)
        case 0
        then show ?thesis using d by simp
      next
        case (Suc m)
        then have "m < k" using n by simp
        then show ?thesis
          using ih Suc by (simp add: funpow_swap1)
      qed
    qed
  }
qed

lemma funpow_fixed: "f s = s \<Longrightarrow> (f ^^ n) s = s"
  by (induction n) simp_all

lemma climb_from_nine_tenths: "climbTo 312 d0_9 = Some stallGrowth"
  by code_simp

lemma stall_fixed: "releaseGrowthD stallGrowth = stallGrowth"
  by code_simp

lemma release_orbit_reaches_stall:
  "(releaseGrowthD ^^ 312) d0_9 = stallGrowth"
  by (rule climbTo_orbit(1) [OF climb_from_nine_tenths])

lemma release_orbit_after_stall:
  assumes "312 \<le> n"
  shows "(releaseGrowthD ^^ n) d0_9 = stallGrowth"
proof -
  have "n = (n - 312) + 312" using assms by simp
  then have "(releaseGrowthD ^^ n) d0_9
               = (releaseGrowthD ^^ (n - 312)) ((releaseGrowthD ^^ 312) d0_9)"
    by (metis funpow_add comp_apply)
  then show ?thesis
    by (simp only: release_orbit_reaches_stall
          funpow_fixed [of releaseGrowthD stallGrowth, OF stall_fixed])
qed

lemma release_orbit_strict:
  assumes "n < 312"
  shows "valueOf ((releaseGrowthD ^^ n) d0_9) < valueOf ((releaseGrowthD ^^ Suc n) d0_9)"
    and "valueOf ((releaseGrowthD ^^ Suc n) d0_9) < 1"
proof -
  have "dless ((releaseGrowthD ^^ n) d0_9) ((releaseGrowthD ^^ Suc n) d0_9)
          \<and> dless ((releaseGrowthD ^^ Suc n) d0_9) dOne"
    using climbTo_orbit(2) [OF climb_from_nine_tenths] assms by blast
  moreover have "valueOf dOne = 1"
    by (simp add: valueOf_def dOne_def)
  ultimately show "valueOf ((releaseGrowthD ^^ n) d0_9) < valueOf ((releaseGrowthD ^^ Suc n) d0_9)"
    and "valueOf ((releaseGrowthD ^^ Suc n) d0_9) < 1"
    by (simp_all add: dless_iff)
qed

lemma valueOf_stall: "valueOf stallGrowth = 1 - 1 / 2 ^ 51"
  by (simp add: valueOf_def stallGrowth_def)

lemma release_orbit_weak:
  "valueOf ((releaseGrowthD ^^ n) d0_9) \<le> valueOf ((releaseGrowthD ^^ Suc n) d0_9)
   \<and> valueOf ((releaseGrowthD ^^ Suc n) d0_9) < 1"
proof (cases "n < 312")
  case True
  then show ?thesis
    using release_orbit_strict [of n] by simp
next
  case False
  then have l: "312 \<le> n" "312 \<le> Suc n"
    by simp_all
  have "(releaseGrowthD ^^ n) d0_9 = stallGrowth"
    by (rule release_orbit_after_stall [OF l(1)])
  moreover have "(releaseGrowthD ^^ Suc n) d0_9 = stallGrowth"
    by (rule release_orbit_after_stall [OF l(2)])
  ultimately show ?thesis
    by (simp only: valueOf_stall) simp
qed

lemma release_orbit_floor:
  "valueOf d0_9 \<le> valueOf ((releaseGrowthD ^^ n) d0_9)"
proof (induction n)
  case 0
  show ?case by simp
next
  case (Suc n)
  then show ?case
    using release_orbit_weak [of n] by linarith
qed


lemma double_literals:
  "\<bar>valueOf d0_9 - 0.9\<bar> < 1 / 2 ^ 54" "\<bar>valueOf d0_1 - 0.1\<bar> < 1 / 2 ^ 57"
  "\<bar>valueOf d0_85 - 0.85\<bar> < 1 / 2 ^ 54" "\<bar>valueOf d0_15 - 0.15\<bar> < 1 / 2 ^ 56"
  "valueOf dOne = 1" "valueOf dZero = 0"
  by (simp_all add: valueOf_def d0_9_def d0_1_def d0_85_def d0_15_def dOne_def dZero_def)

lemma release_fixed_double:
  "valueOf (releaseGrowthD dZero) = 0" "valueOf (releaseGrowthD dOne) = 1"
proof -
  have "releaseGrowthD dZero = Double 0 (- 55)"
    by code_simp
  then show "valueOf (releaseGrowthD dZero) = 0"
    by (simp add: valueOf_def)
  have "releaseGrowthD dOne = Double 4503599627370496 (- 52)"
    by code_simp
  then show "valueOf (releaseGrowthD dOne) = 1"
    by (simp add: valueOf_def)
qed

text \<open>
  C7 as stated fails in the arithmetic of the program: from the double \<open>0.9\<close> the
  not-pinching rule raises the growth 312 times and then leaves it at \<open>1 - 2 ^ -51\<close>,
  where \<open>(1 - growth) * 0.1\<close> is less than half the spacing of the doubles below \<open>1\<close>:
  tick 313 does not increase it.
\<close>

theorem C7_counterexample:
  "\<bar>valueOf d0_9 - 0.9\<bar> < 1 / 2 ^ 54
   \<and> valueOf ((releaseGrowthD ^^ 312) d0_9) = 1 - 1 / 2 ^ 51
   \<and> (releaseGrowthD ^^ Suc 312) d0_9 = (releaseGrowthD ^^ 312) d0_9
   \<and> \<not> valueOf ((releaseGrowthD ^^ 312) d0_9) < valueOf ((releaseGrowthD ^^ Suc 312) d0_9)"
proof -
  have a: "(releaseGrowthD ^^ 312) d0_9 = stallGrowth"
    by (rule release_orbit_reaches_stall)
  have b: "(releaseGrowthD ^^ Suc 312) d0_9 = stallGrowth"
    by (rule release_orbit_after_stall) simp
  show ?thesis
    unfolding a b using double_literals(1) valueOf_stall by simp
qed

text \<open>
  C7 (as amended): repeating \<open>growth := growth + (target - growth) * k\<close> with a constant
  target in \<open>[0,1]\<close> and gain \<open>0.15\<close> (pinching) or \<open>0.1\<close> (auto-snap), from any start in
  \<open>[0,1]\<close>: the growth moves monotonically toward the target and never passes it, and
  its distance from the target is below \<open>1/1000\<close> from tick \<open>66\<close> on. Under the
  not-pinching rule from \<open>0.9\<close>, in the doubles of the program, no tick lowers the
  growth, which stays in \<open>[0.9, 1)\<close>; the first 312 ticks raise it strictly, and from
  then on it rests at \<open>1 - 2 ^ -51\<close>. \<open>0\<close> and \<open>1\<close> are fixed points of that rule.
  The pinching update is this statement with gain \<open>0.15\<close>.
\<close>

theorem C7_smoothing_converges:
  assumes "k = 0.15 \<or> k = 0.1" and "0 \<le> target" and "target \<le> 1"
    and "0 \<le> g0" and "g0 \<le> 1"
  shows "(\<forall>n. (g0 \<le> target \<longrightarrow>
                 smoothTicks target k n g0 \<le> smoothTicks target k (Suc n) g0
                 \<and> smoothTicks target k (Suc n) g0 \<le> target)
            \<and> (target \<le> g0 \<longrightarrow>
                 target \<le> smoothTicks target k (Suc n) g0
                 \<and> smoothTicks target k (Suc n) g0 \<le> smoothTicks target k n g0))
         \<and> (\<forall>n\<ge>66. \<bar>smoothTicks target k n g0 - target\<bar> < 1 / 1000)
         \<and> \<bar>valueOf d0_9 - 0.9\<bar> < 1 / 2 ^ 54
         \<and> (\<forall>n. valueOf ((releaseGrowthD ^^ n) d0_9) \<le> valueOf ((releaseGrowthD ^^ Suc n) d0_9)
                \<and> valueOf ((releaseGrowthD ^^ Suc n) d0_9) < 1
                \<and> valueOf d0_9 \<le> valueOf ((releaseGrowthD ^^ n) d0_9))
         \<and> (\<forall>n<312. valueOf ((releaseGrowthD ^^ n) d0_9) < valueOf ((releaseGrowthD ^^ Suc n) d0_9))
         \<and> (\<forall>n\<ge>312. valueOf ((releaseGrowthD ^^ n) d0_9) = 1 - 1 / 2 ^ 51)
         \<and> releaseGrowth 0 = 0 \<and> releaseGrowth 1 = 1
         \<and> valueOf (releaseGrowthD dZero) = 0 \<and> valueOf (releaseGrowthD dOne) = 1
         \<and> (\<forall>g y. pinchGrowth g y = smoothToward g (targetGrowth y) 0.15)"
proof -
  have k: "0 < k" "k < 1" "1/10 \<le> k"
    using assms(1) by auto
  have mono: "\<forall>n. (g0 \<le> target \<longrightarrow>
                 smoothTicks target k n g0 \<le> smoothTicks target k (Suc n) g0
                 \<and> smoothTicks target k (Suc n) g0 \<le> target)
            \<and> (target \<le> g0 \<longrightarrow>
                 target \<le> smoothTicks target k (Suc n) g0
                 \<and> smoothTicks target k (Suc n) g0 \<le> smoothTicks target k n g0)"
    using smoothTicks_up [OF k(1,2)] smoothTicks_down [OF k(1,2)] by blast
  have within: "\<forall>n\<ge>66. \<bar>smoothTicks target k n g0 - target\<bar> < 1 / 1000"
    using smoothTicks_within [OF k(3) k(2) assms(2-5)] by blast
  have weak: "\<forall>n. valueOf ((releaseGrowthD ^^ n) d0_9) \<le> valueOf ((releaseGrowthD ^^ Suc n) d0_9)
                \<and> valueOf ((releaseGrowthD ^^ Suc n) d0_9) < 1
                \<and> valueOf d0_9 \<le> valueOf ((releaseGrowthD ^^ n) d0_9)"
    using release_orbit_weak release_orbit_floor by blast
  have strict: "\<forall>n<312. valueOf ((releaseGrowthD ^^ n) d0_9)
                            < valueOf ((releaseGrowthD ^^ Suc n) d0_9)"
    using release_orbit_strict(1) by blast
  have stall: "\<forall>n\<ge>312. valueOf ((releaseGrowthD ^^ n) d0_9) = 1 - 1 / 2 ^ 51"
    using release_orbit_after_stall valueOf_stall by simp
  have link: "\<forall>g y. pinchGrowth g y = smoothToward g (targetGrowth y) 0.15"
    by (simp add: pinchGrowth_def)
  show ?thesis
    using mono within double_literals(1) weak strict stall release_fixed
      release_fixed_double link
    by blast
qed

theorem C7_witness:
  "((0.1::real) = 0.15 \<or> (0.1::real) = 0.1) \<and> (0::real) \<le> 1 \<and> (1::real) \<le> 1
   \<and> (0::real) \<le> 1/2 \<and> (1/2::real) \<le> 1
   \<and> smoothTicks 1 0.1 0 (1/2) \<le> smoothTicks 1 0.1 (Suc 0) (1/2)
   \<and> smoothTicks 1 0.1 (Suc 0) (1/2) = 11/20
   \<and> \<bar>smoothTicks 1 0.1 66 (1/2) - 1\<bar> < 1 / 1000
   \<and> (0::nat) < 312
   \<and> valueOf ((releaseGrowthD ^^ 0) d0_9) < valueOf ((releaseGrowthD ^^ Suc 0) d0_9)
   \<and> valueOf ((releaseGrowthD ^^ 400) d0_9) = 1 - 1 / 2 ^ 51"
proof -
  have h: "(0.1::real) = 0.15 \<or> (0.1::real) = 0.1" "(0::real) \<le> 1" "(1::real) \<le> 1"
    "(0::real) \<le> 1/2" "(1/2::real) \<le> 1"
    by simp_all
  have v: "smoothTicks 1 0.1 (Suc 0) (1/2) = 11/20"
    by (simp add: smoothTicks_def smoothToward_def)
  have t: "\<forall>n<312. valueOf ((releaseGrowthD ^^ n) d0_9) < valueOf ((releaseGrowthD ^^ Suc n) d0_9)"
    and s: "\<forall>n\<ge>312. valueOf ((releaseGrowthD ^^ n) d0_9) = 1 - 1 / 2 ^ 51"
    and m: "\<forall>n. (1/2 \<le> (1::real) \<longrightarrow>
                 smoothTicks 1 0.1 n (1/2) \<le> smoothTicks 1 0.1 (Suc n) (1/2)
                 \<and> smoothTicks 1 0.1 (Suc n) (1/2) \<le> 1)
            \<and> ((1::real) \<le> 1/2 \<longrightarrow>
                 1 \<le> smoothTicks 1 0.1 (Suc n) (1/2)
                 \<and> smoothTicks 1 0.1 (Suc n) (1/2) \<le> smoothTicks 1 0.1 n (1/2))"
    and w: "\<forall>n\<ge>66. \<bar>smoothTicks 1 0.1 n (1/2) - 1\<bar> < 1 / 1000"
    using C7_smoothing_converges [OF h] by blast+
  have t0: "valueOf ((releaseGrowthD ^^ 0) d0_9) < valueOf ((releaseGrowthD ^^ Suc 0) d0_9)"
    using t by (rule allE [of _ 0]) simp
  have s400: "valueOf ((releaseGrowthD ^^ 400) d0_9) = 1 - 1 / 2 ^ 51"
    using s by (rule allE [of _ 400]) simp
  have m0: "smoothTicks 1 0.1 0 (1/2) \<le> smoothTicks 1 0.1 (Suc 0) (1/2)"
    using m by (rule allE [of _ 0]) simp
  have w66: "\<bar>smoothTicks 1 0.1 66 (1/2) - 1\<bar> < 1 / 1000"
    using w by (rule allE [of _ 66]) simp
  show ?thesis
    using h v t0 s400 m0 w66 by simp
qed

lemma controlHand_present:
  assumes "hands \<noteq> []" "8 < length (hands ! 0)"
  shows "isPinching (detectionPass ctx (Some hands) st)
           = (pinchDist (hands ! 0 ! 4) (hands ! 0 ! 8) < 0.06)"
    and "growth (detectionPass ctx (Some hands) st)
           = (if pinchDist (hands ! 0 ! 4) (hands ! 0 ! 8) < 0.06
              then pinchGrowth (growth st) ((lmy (hands ! 0 ! 4) + lmy (hands ! 0 ! 8)) / 2)
              else releaseGrowth (growth st))"
  using assms
  by (auto simp add: detectionPass_def controlHand_def distortHand_def Let_def
           split: sum.splits if_splits)

text \<open>
  C2 (as amended): in a detection pass with no hand at all, the pinching flag is set to
  false and the growth is left as it is, whatever its value; so over any sequence of
  frames whose detections hold no hand, a growth of \<open>0.5\<close> stays exactly \<open>0.5\<close>. The
  not-pinching rule is applied only to a primary hand that is present and not pinching:
  then the growth moves toward \<open>1\<close> with gain \<open>0.1\<close> when it is above \<open>0.85\<close>, toward
  \<open>0\<close> with gain \<open>0.1\<close> when it is below \<open>0.15\<close>, and is held otherwise.
\<close>

theorem C2_absent_hand_holds_growth:
  "isPinching (detectionPass ctx (Some []) st) = False
   \<and> growth (detectionPass ctx (Some []) st) = growth st
   \<and> (detect f = Detections (Some []) \<longrightarrow> growth (predictWebcam st f) = growth st)
   \<and> ((\<forall>f \<in> set fs. detect f = Detections (Some [])) \<and> growth st = 0.5
        \<longrightarrow> growth (runFrames st fs) = 0.5)
   \<and> (hands \<noteq> [] \<and> 8 < length (hands ! 0)
        \<and> \<not> hypot ((lmx (hands ! 0 ! 4) - lmx (hands ! 0 ! 8)) * aspectRatio)
                    (lmy (hands ! 0 ! 4) - lmy (hands ! 0 ! 8)) < 0.06
        \<longrightarrow> \<not> isPinching (detectionPass ctx (Some hands) st)
          \<and> growth (detectionPass ctx (Some hands) st)
              = (if growth st > 0.85 then growth st + (1 - growth st) * 0.1
                 else if growth st < 0.15 then growth st + (0 - growth st) * 0.1
                 else growth st))"
proof -
  have a: "isPinching (detectionPass ctx (Some []) st) = False
   \<and> growth (detectionPass ctx (Some []) st) = growth st"
    by (simp add: detectionPass_no_hands)
  have b: "detect f = Detections (Some []) \<longrightarrow> growth (predictWebcam st f) = growth st"
    using predictWebcam_no_hands_growth [of f st] by blast
  have c: "(\<forall>f \<in> set fs. detect f = Detections (Some [])) \<and> growth st = 0.5
        \<longrightarrow> growth (runFrames st fs) = 0.5"
    using runFrames_no_hands_growth [of fs st] by simp
  have d: "\<not> isPinching (detectionPass ctx (Some hands) st)
          \<and> growth (detectionPass ctx (Some hands) st)
              = (if growth st > 0.85 then growth st + (1 - growth st) * 0.1
                 else if growth st < 0.15 then growth st + (0 - growth st) * 0.1
                 else growth st)"
    if h: "hands \<noteq> [] \<and> 8 < length (hands ! 0)
        \<and> \<not> hypot ((lmx (hands ! 0 ! 4) - lmx (hands ! 0 ! 8)) * aspectRatio)
                    (lmy (hands ! 0 ! 4) - lmy (hands ! 0 ! 8)) < 0.06"
  proof -
    have p: "hands \<noteq> []" "8 < length (hands ! 0)"
      using h by simp_all
    have n: "\<not> pinchDist (hands ! 0 ! 4) (hands ! 0 ! 8) < 0.06"
      using h by (simp add: pinchDist_def)
    have "\<not> isPinching (detectionPass ctx (Some hands) st)"
      using controlHand_present(1) [OF p, of ctx st] n by simp
    moreover have "growth (detectionPass ctx (Some hands) st) = releaseGrowth (growth st)"
      using controlHand_present(2) [OF p, of ctx st] n by simp
    ultimately show ?thesis
      by (simp add: releaseGrowth_def smoothToward_def)
  qed
  show ?thesis
    using a b c d by blast
qed

lemma openHand_tips:
  "length openHand = 21" "openHand ! 4 = \<lparr> lmx = 0, lmy = 0 \<rparr>"
  "openHand ! 8 = \<lparr> lmx = 3/4, lmy = 0 \<rparr>"
  by (simp_all add: openHand_def)

theorem C2_witness:
  "detect (noHandFrame 1) = Detections (Some [])
   \<and> detect (noHandFrame 2) = Detections (Some [])
   \<and> growth (initialState\<lparr> growth := 0.5, handLandmarker := True \<rparr>) = 0.5
   \<and> growth (runFrames (initialState\<lparr> growth := 0.5, handLandmarker := True \<rparr>)
         [noHandFrame 1, noHandFrame 2]) = 0.5
   \<and> [openHand] \<noteq> [] \<and> 8 < length ([openHand] ! 0)
   \<and> \<not> hypot ((lmx ([openHand] ! 0 ! 4) - lmx ([openHand] ! 0 ! 8)) * aspectRatio)
               (lmy ([openHand] ! 0 ! 4) - lmy ([openHand] ! 0 ! 8)) < 0.06
   \<and> growth (detectionPass True (Some [openHand]) (initialState\<lparr> growth := 0.9 \<rparr>)) = 0.91
   \<and> growth (detectionPass True (Some [openHand]) (initialState\<lparr> growth := 0.1 \<rparr>)) = 0.09"
proof -
  have h: "\<not> hypot ((lmx ([openHand] ! 0 ! 4) - lmx ([openHand] ! 0 ! 8)) * aspectRatio)
               (lmy ([openHand] ! 0 ! 4) - lmy ([openHand] ! 0 ! 8)) < 0.06"
    by (simp add: openHand_tips hypot_def aspectRatio_def)
  have w: "[openHand] \<noteq> [] \<and> 8 < length ([openHand] ! 0)"
    by (simp add: openHand_tips)
  have hi: "growth (detectionPass True (Some [openHand]) (initialState\<lparr> growth := 0.9 \<rparr>)) = 0.91"
    using C2_absent_hand_holds_growth
      [of True "initialState\<lparr> growth := 0.9 \<rparr>" "noHandFrame 1" "[]" "[openHand]"] h w
    by simp
  have lo: "growth (detectionPass True (Some [openHand]) (initialState\<lparr> growth := 0.1 \<rparr>)) = 0.09"
    using C2_absent_hand_holds_growth
      [of True "initialState\<lparr> growth := 0.1 \<rparr>" "noHandFrame 1" "[]" "[openHand]"] h w
    by simp
  have fr: "growth (runFrames (initialState\<lparr> growth := 0.5, handLandmarker := True \<rparr>)
         [noHandFrame 1, noHandFrame 2]) = 0.5"
    using C2_absent_hand_holds_growth
      [of True "initialState\<lparr> growth := 0.5, handLandmarker := True \<rparr>" "noHandFrame 1"
          "[noHandFrame 1, noHandFrame 2]" "[]"]
    by (simp add: noHandFrame_def)
  show ?thesis
    using h w hi lo fr by (simp add: noHandFrame_def)
qed

theorem C2_counterexample:
  "\<not> (growth (detectionPass True (Some []) (initialState\<lparr> growth := 0.9 \<rparr>))
        = releaseGrowth (growth (initialState\<lparr> growth := 0.9 \<rparr>)))
   \<and> growth (detectionPass True (Some []) (initialState\<lparr> growth := 0.9 \<rparr>)) = 0.9
   \<and> releaseGrowth (growth (initialState\<lparr> growth := 0.9 \<rparr>)) = 0.91"
  by (simp add: detectionPass_no_hands releaseGrowth_def smoothToward_def)

subsection \<open>The primary hand (C6)\<close>

lemma targetGrowth_claim:
  "targetGrowth y =
     (let c = clamp ((y - 0.2) / (0.8 - 0.2)) 0 1
      in if c > 0.85 then 1 else if c < 0.15 then 0 else c)"
  by (auto simp add: targetGrowth_def clamp_def Let_def max_def min_def)

text \<open>
  C6: in a detection pass whose primary hand is present, the pinching flag holds exactly
  when \<open>hypot((thumb.x - index.x) * aspectRatio, thumb.y - index.y) < 0.06\<close>, with
  \<open>aspectRatio = 640/480\<close> (a distance of exactly \<open>0.06\<close> is not a pinch); while
  pinching the growth becomes \<open>growth + (target - growth) * 0.15\<close>, where the target
  is \<open>clamp((midY - 0.2) / (0.8 - 0.2), 0, 1)\<close> snapped to \<open>1\<close> above \<open>0.85\<close> and to
  \<open>0\<close> below \<open>0.15\<close>; a pinch midpoint at \<open>y = 0.2\<close> has raw progress and target \<open>0\<close>
  and the growth moves toward \<open>0\<close> (it is multiplied by \<open>0.85\<close>).
\<close>

theorem C6_primary_hand_pinch:
  fixes hands :: "hand list" and ctx :: bool and st :: app_state
  assumes "hands \<noteq> []" and "8 < length (hands ! 0)"
  defines "thumb \<equiv> hands ! 0 ! 4" and "index \<equiv> hands ! 0 ! 8"
  defines "midY \<equiv> (lmy thumb + lmy index) / 2"
  defines "st' \<equiv> detectionPass ctx (Some hands) st"
  shows "(isPinching st'
            \<longleftrightarrow> hypot ((lmx thumb - lmx index) * aspectRatio) (lmy thumb - lmy index) < 0.06)
         \<and> aspectRatio = 640 / 480
         \<and> (hypot ((lmx thumb - lmx index) * aspectRatio) (lmy thumb - lmy index) = 0.06
              \<longrightarrow> \<not> isPinching st')
         \<and> (isPinching st' \<longrightarrow>
              growth st' = growth st + (targetGrowth midY - growth st) * 0.15
              \<and> targetGrowth midY =
                  (let c = clamp ((midY - 0.2) / (0.8 - 0.2)) 0 1
                   in if c > 0.85 then 1 else if c < 0.15 then 0 else c))
         \<and> (isPinching st' \<and> midY = 0.2 \<longrightarrow>
              (midY - 0.2) / (0.8 - 0.2) = 0 \<and> targetGrowth midY = 0
              \<and> growth st' = 0.85 * growth st \<and> \<bar>growth st'\<bar> \<le> \<bar>growth st\<bar>)"
proof -
  have p: "isPinching st' = (pinchDist thumb index < 0.06)"
    unfolding st'_def thumb_def index_def by (rule controlHand_present(1) [OF assms(1,2)])
  have g: "isPinching st' \<Longrightarrow> growth st' = pinchGrowth (growth st) midY"
    using p unfolding st'_def midY_def thumb_def index_def
    by (simp add: controlHand_present(2) [OF assms(1,2)])
  have c1: "isPinching st'
            \<longleftrightarrow> hypot ((lmx thumb - lmx index) * aspectRatio) (lmy thumb - lmy index) < 0.06"
    using p by (simp add: pinchDist_def)
  have c2: "aspectRatio = 640 / 480"
    by (simp add: aspectRatio_def)
  have c3: "hypot ((lmx thumb - lmx index) * aspectRatio) (lmy thumb - lmy index) = 0.06
              \<longrightarrow> \<not> isPinching st'"
    using c1 by simp
  have c4: "isPinching st' \<longrightarrow>
              growth st' = growth st + (targetGrowth midY - growth st) * 0.15
              \<and> targetGrowth midY =
                  (let c = clamp ((midY - 0.2) / (0.8 - 0.2)) 0 1
                   in if c > 0.85 then 1 else if c < 0.15 then 0 else c)"
    using g targetGrowth_claim [of midY] by (simp add: pinchGrowth_def smoothToward_def)
  have t0: "targetGrowth 0.2 = 0"
    by (simp add: targetGrowth_def)
  have c5: "isPinching st' \<and> midY = 0.2 \<longrightarrow>
              (midY - 0.2) / (0.8 - 0.2) = 0 \<and> targetGrowth midY = 0
              \<and> growth st' = 0.85 * growth st \<and> \<bar>growth st'\<bar> \<le> \<bar>growth st\<bar>"
  proof
    assume a: "isPinching st' \<and> midY = 0.2"
    from a have pin: "isPinching st'" and m: "midY = 0.2"
      by (rule conjunct1, rule conjunct2)
    have "growth st' = pinchGrowth (growth st) midY"
      by (rule g [OF pin])
    then have e: "growth st' = 0.85 * growth st"
      unfolding m using t0 by (simp add: pinchGrowth_def smoothToward_def)
    have "\<bar>0.85 * growth st\<bar> \<le> \<bar>growth st\<bar>"
      by (simp add: abs_mult)
    then show "(midY - 0.2) / (0.8 - 0.2) = 0 \<and> targetGrowth midY = 0
              \<and> growth st' = 0.85 * growth st \<and> \<bar>growth st'\<bar> \<le> \<bar>growth st\<bar>"
      unfolding m e using t0 by simp
  qed
  show ?thesis
    using c1 c2 c3 c4 c5 by blast
qed

theorem C6_witness:
  "[pinchedHand (1/2) (1/5)] \<noteq> [] \<and> 8 < length ([pinchedHand (1/2) (1/5)] ! 0)
   \<and> isPinching (detectionPass True (Some [pinchedHand (1/2) (1/5)]) (initialState\<lparr> growth := 1 \<rparr>))
   \<and> growth (detectionPass True (Some [pinchedHand (1/2) (1/5)]) (initialState\<lparr> growth := 1 \<rparr>))
       = 0.85"
proof -
  have h: "[pinchedHand (1/2) (1/5)] \<noteq> []" "8 < length ([pinchedHand (1/2) (1/5)] ! 0)"
    by (simp_all add: pinchedHand_def)
  have l: "pinchedHand (1/2) (1/5) ! 4 = \<lparr> lmx = 1/2, lmy = 1/5 \<rparr>"
      "pinchedHand (1/2) (1/5) ! 8 = \<lparr> lmx = 1/2, lmy = 1/5 \<rparr>"
    by (simp_all add: pinchedHand_def)
  show ?thesis
    using C6_primary_hand_pinch [OF h, of True "initialState\<lparr> growth := 1 \<rparr>"] h
    by (auto simp add: l hypot_def)
qed

subsection \<open>The secondary hand (C8)\<close>

lemma controlHand_wellformed:
  assumes "\<forall>h \<in> set hands. length h = 21"
  shows "\<exists>s. controlHand ctx hands st = Inr s \<and> distortion s = distortion st"
proof (cases hands)
  case Nil
  then show ?thesis by (simp add: controlHand_def)
next
  case (Cons h hs)
  then have "length (hands ! 0) = 21" using assms by simp
  then show ?thesis
    using Cons by (simp add: controlHand_def Let_def)
qed

lemma distortHand_present:
  assumes "1 < length hands" "8 < length (hands ! 1)"
  shows "distortion (case distortHand ctx hands s of Inl s' \<Rightarrow> s' | Inr s' \<Rightarrow> s')
           = \<lparr> cursorX = 1 - 2 * ((lmx (hands ! 1 ! 4) + lmx (hands ! 1 ! 8)) / 2),
               cursorY = 1 - 2 * ((lmy (hands ! 1 ! 4) + lmy (hands ! 1 ! 8)) / 2),
               active = (pinchDist (hands ! 1 ! 4) (hands ! 1 ! 8) < 0.06) \<rparr>"
  using assms by (simp add: distortHand_def Let_def)

lemma distortHand_absent:
  assumes "length hands \<le> 1"
  shows "distortion (case distortHand ctx hands s of Inl s' \<Rightarrow> s' | Inr s' \<Rightarrow> s')
           = (distortion s)\<lparr> active := False \<rparr>"
  using assms by (simp add: distortHand_def)

text \<open>
  C8: in a detection pass over well-formed hands (21 landmarks each), a secondary hand
  that is present publishes \<open>{x: 1 - 2 * midX, y: 1 - 2 * midY, active: pinching}\<close> for
  the midpoint of its thumb and index tips; both axes lie in \<open>[-1,1]\<close> when the two
  landmarks lie in \<open>[0,1]\<^sup>2\<close>; a secondary hand that is absent sets \<open>active\<close> to false
  (and keeps the position); a pinching midpoint of \<open>(0.25, 0.25)\<close> publishes
  \<open>(0.5, 0.5)\<close> with \<open>active\<close> true.
\<close>

theorem C8_secondary_hand_distortion:
  fixes hands :: "hand list" and ctx :: bool and st :: app_state
  assumes "\<forall>h \<in> set hands. length h = 21"
  defines "thumb \<equiv> hands ! 1 ! 4" and "index \<equiv> hands ! 1 ! 8"
  defines "midX \<equiv> (lmx thumb + lmx index) / 2" and "midY \<equiv> (lmy thumb + lmy index) / 2"
  defines "pinching \<equiv> hypot ((lmx thumb - lmx index) * aspectRatio) (lmy thumb - lmy index) < 0.06"
  defines "d \<equiv> distortion (detectionPass ctx (Some hands) st)"
  shows "(1 < length hands \<longrightarrow>
            d = \<lparr> cursorX = 1 - 2 * midX, cursorY = 1 - 2 * midY, active = pinching \<rparr>
            \<and> isDistorting (detectionPass ctx (Some hands) st) = pinching)
         \<and> (1 < length hands \<and> 0 \<le> lmx thumb \<and> lmx thumb \<le> 1 \<and> 0 \<le> lmy thumb \<and> lmy thumb \<le> 1
              \<and> 0 \<le> lmx index \<and> lmx index \<le> 1 \<and> 0 \<le> lmy index \<and> lmy index \<le> 1
            \<longrightarrow> -1 \<le> cursorX d \<and> cursorX d \<le> 1 \<and> -1 \<le> cursorY d \<and> cursorY d \<le> 1)
         \<and> (length hands \<le> 1 \<longrightarrow> d = (distortion st)\<lparr> active := False \<rparr> \<and> \<not> active d)
         \<and> (1 < length hands \<and> pinching \<and> midX = 0.25 \<and> midY = 0.25
            \<longrightarrow> d = \<lparr> cursorX = 0.5, cursorY = 0.5, active = True \<rparr>)"
proof -
  obtain s where s: "controlHand ctx hands st = Inr s" "distortion s = distortion st"
    using controlHand_wellformed [OF assms(1)] by blast
  have dp: "detectionPass ctx (Some hands) st
              = (case distortHand ctx hands s of Inl s' \<Rightarrow> s' | Inr s' \<Rightarrow> s')"
    by (simp add: detectionPass_def s(1))
  have present: "d = \<lparr> cursorX = 1 - 2 * midX, cursorY = 1 - 2 * midY, active = pinching \<rparr>
                 \<and> isDistorting (detectionPass ctx (Some hands) st) = pinching"
    if l: "1 < length hands"
  proof -
    have "hands ! 1 \<in> set hands" using l by simp
    then have l8: "8 < length (hands ! 1)" "\<not> length (hands ! 1) < 21"
      using assms(1) by simp_all
    have "d = \<lparr> cursorX = 1 - 2 * midX, cursorY = 1 - 2 * midY, active = pinching \<rparr>"
      unfolding d_def dp midX_def midY_def pinching_def thumb_def index_def
      using distortHand_present [OF l l8(1)] by (simp add: pinchDist_def)
    moreover have "isDistorting (detectionPass ctx (Some hands) st) = pinching"
      unfolding dp pinching_def thumb_def index_def
      using l l8 by (simp add: distortHand_def Let_def pinchDist_def)
    ultimately show ?thesis by simp
  qed
  have c1: "1 < length hands \<longrightarrow>
            d = \<lparr> cursorX = 1 - 2 * midX, cursorY = 1 - 2 * midY, active = pinching \<rparr>
            \<and> isDistorting (detectionPass ctx (Some hands) st) = pinching"
    using present by blast
  have c2: "1 < length hands \<and> 0 \<le> lmx thumb \<and> lmx thumb \<le> 1 \<and> 0 \<le> lmy thumb \<and> lmy thumb \<le> 1
              \<and> 0 \<le> lmx index \<and> lmx index \<le> 1 \<and> 0 \<le> lmy index \<and> lmy index \<le> 1
            \<longrightarrow> -1 \<le> cursorX d \<and> cursorX d \<le> 1 \<and> -1 \<le> cursorY d \<and> cursorY d \<le> 1"
    using present by (auto simp add: midX_def midY_def)
  have c3: "length hands \<le> 1 \<longrightarrow> d = (distortion st)\<lparr> active := False \<rparr> \<and> \<not> active d"
    unfolding d_def dp using distortHand_absent [of hands ctx s] s(2) by simp
  have c4: "1 < length hands \<and> pinching \<and> midX = 0.25 \<and> midY = 0.25
            \<longrightarrow> d = \<lparr> cursorX = 0.5, cursorY = 0.5, active = True \<rparr>"
  proof
    assume a: "1 < length hands \<and> pinching \<and> midX = 0.25 \<and> midY = 0.25"
    then have "d = \<lparr> cursorX = 1 - 2 * midX, cursorY = 1 - 2 * midY, active = pinching \<rparr>"
      using present by blast
    moreover have "midX = 0.25" "midY = 0.25" "pinching" using a by blast+
    ultimately show "d = \<lparr> cursorX = 0.5, cursorY = 0.5, active = True \<rparr>"
      by (simp only:) simp
  qed
  show ?thesis
    using c1 c2 c3 c4 by blast
qed

theorem C8_witness:
  "length (pinchedHand (1/2) (1/2)) = 21 \<and> length (pinchedHand (1/4) (1/4)) = 21
   \<and> 1 < length [pinchedHand (1/2) (1/2), pinchedHand (1/4) (1/4)]
   \<and> distortion (detectionPass True (Some [pinchedHand (1/2) (1/2), pinchedHand (1/4) (1/4)])
        initialState) = \<lparr> cursorX = 1/2, cursorY = 1/2, active = True \<rparr>"
proof -
  have h: "\<forall>h \<in> set [pinchedHand (1/2) (1/2), pinchedHand (1/4) (1/4)]. length h = 21"
    by (simp add: pinchedHand_def)
  have l: "pinchedHand (1/4) (1/4) ! 4 = \<lparr> lmx = 1/4, lmy = 1/4 \<rparr>"
      "pinchedHand (1/4) (1/4) ! 8 = \<lparr> lmx = 1/4, lmy = 1/4 \<rparr>"
    by (simp_all add: pinchedHand_def)
  show ?thesis
    using C8_secondary_hand_distortion [OF h, of True initialState] h
    by (auto simp add: l hypot_def)
qed

subsection \<open>Camera failure (C9)\<close>

lemma smoothstep_one:
  assumes "e0 < e1" "e1 \<le> x"
  shows "smoothstep e0 e1 x = 1"
proof -
  have "1 \<le> (x - e0) / (e1 - e0)"
    using assms by (simp add: field_simps)
  then have "clamp ((x - e0) / (e1 - e0)) 0 1 = 1"
    by (simp add: clamp_def)
  then show ?thesis
    by (simp add: smoothstep_def)
qed

lemma glsl_pow_zero_four: "glsl_pow 0 4 = 0"
  by (simp add: glsl_pow_def)

lemma easeT_one: "easeT 1 = 1"
  by (simp add: easeT_def glsl_pow_def)

lemma mix3_one: "mix3 a b 1 = b"
  by (simp add: mix3_def mix_def)

lemma built_at_full_growth:
  assumes "0 \<le> aRandom p" and "-10 \<le> vy (finalPos (useFrame config (Some 1) elapsed u0) p)"
  shows "activation (useFrame config (Some 1) elapsed u0) p = 1"
    and "vPosition (main (useFrame config (Some 1) elapsed u0) p)
           = finalPos (useFrame config (Some 1) elapsed u0) p"
proof -
  have sc: "uScanY (useFrame config (Some 1) elapsed u0) = -12"
    by (simp add: useFrame_def scanY_linear)
  have "1 \<le> vy (finalPos (useFrame config (Some 1) elapsed u0) p) - (-12) + (aRandom p - 0.5) * 2"
    using assms by simp
  then show act: "activation (useFrame config (Some 1) elapsed u0) p = 1"
    unfolding activation_def Let_def sc by (intro smoothstep_one) simp_all
  show "vPosition (main (useFrame config (Some 1) elapsed u0) p)
           = finalPos (useFrame config (Some 1) elapsed u0) p"
    by (simp add: main_def act easeT_one mix3_one)
qed

lemma stemParticle_fields:
  "vy (position (stemParticle i r seed)) = -1 - real i / real stemCount * 7"
  "aRandom (stemParticle i r seed) = seed"
  "aType (stemParticle i r seed) = 1"
  "vy (aDirection (stemParticle i r seed)) = 0"
  by (simp_all add: stemParticle_def Let_def)

lemma finalPos_y_stem:
  "aType p = 1 \<Longrightarrow> vy (finalPos u p) = vy (position p)"
  by (simp add: finalPos_def shapeGeneration_def Let_def)

lemma smoothstep_zero:
  assumes "e0 < e1" "x \<le> e0"
  shows "smoothstep e0 e1 x = 0"
proof -
  have "(x - e0) / (e1 - e0) \<le> 0"
    using assms by (simp add: divide_nonpos_pos)
  then have "clamp ((x - e0) / (e1 - e0)) 0 1 = 0"
    by (simp add: clamp_def)
  then show ?thesis
    by (simp add: smoothstep_def)
qed

lemma startCamera_rejected:
  "startCamera st Rejected = st\<lparr> permissionError := True, loading := False, growth := 1 \<rparr>"
  by (simp add: startCamera_def)

lemma activation_stem_at_growth_zero:
  "activation (useFrame CINEMATIC_CONFIG (Some 0) 0 (initialUniforms CINEMATIC_CONFIG))
     (stemParticle 0 0 (1/2)) = 0"
proof -
  have sc: "uScanY (useFrame CINEMATIC_CONFIG (Some 0) 0 (initialUniforms CINEMATIC_CONFIG)) = 10"
    by (simp add: useFrame_def scanY_linear)
  have y: "vy (finalPos (useFrame CINEMATIC_CONFIG (Some 0) 0 (initialUniforms CINEMATIC_CONFIG))
               (stemParticle 0 0 (1/2))) = -1"
    by (simp add: finalPos_y_stem stemParticle_fields)
  show ?thesis
    unfolding activation_def Let_def sc y
    by (rule smoothstep_zero) (simp_all add: stemParticle_fields)
qed

text \<open>
  C9: what the code does when no camera can be had. Only a rejected \<open>getUserMedia\<close>
  reaches the handler that forces the growth to \<open>1\<close> and raises the
  \<open>permissionError\<close> status. When the browser offers no media devices, \<open>startCamera\<close>
  asks for nothing and catches nothing: from the start-up of the component the growth
  stays \<open>0\<close>, \<open>loading\<close> stays true, no status is raised, and at growth \<open>0\<close> the
  stem particle at the top of the stem has activation \<open>0\<close>. When the detector cannot be
  set up, the growth is forced to \<open>1\<close> and \<open>loading\<close> cleared, but \<open>permissionError\<close>
  is not set, so neither the status nor the retry button is shown.
\<close>

theorem C9_camera_unavailable_unhandled:
  "startCamera st NoMediaDevices = st\<lparr> permissionError := False, loading := True \<rparr>
   \<and> growth (setupMediaPipe initialState (InitOk NoMediaDevices)) = 0
   \<and> loading (setupMediaPipe initialState (InitOk NoMediaDevices))
   \<and> \<not> permissionError (setupMediaPipe initialState (InitOk NoMediaDevices))
   \<and> activation (useFrame CINEMATIC_CONFIG (Some 0) 0 (initialUniforms CINEMATIC_CONFIG))
         (stemParticle 0 0 (1/2)) = 0
   \<and> growth (setupMediaPipe initialState InitFailed) = 1
   \<and> \<not> loading (setupMediaPipe initialState InitFailed)
   \<and> \<not> permissionError (setupMediaPipe initialState InitFailed)
   \<and> growth (setupMediaPipe initialState (InitOk Rejected)) = 1
   \<and> \<not> loading (setupMediaPipe initialState (InitOk Rejected))
   \<and> permissionError (setupMediaPipe initialState (InitOk Rejected))
   \<and> \<not> active (distortion (setupMediaPipe initialState (InitOk Rejected)))"
proof -
  have a: "startCamera st NoMediaDevices = st\<lparr> permissionError := False, loading := True \<rparr>"
    by (simp add: startCamera_def)
  have b: "growth (setupMediaPipe initialState (InitOk NoMediaDevices)) = 0
   \<and> loading (setupMediaPipe initialState (InitOk NoMediaDevices))
   \<and> \<not> permissionError (setupMediaPipe initialState (InitOk NoMediaDevices))"
    by (simp add: setupMediaPipe_def startCamera_def initialState_def)
  have c: "growth (setupMediaPipe initialState InitFailed) = 1
   \<and> \<not> loading (setupMediaPipe initialState InitFailed)
   \<and> \<not> permissionError (setupMediaPipe initialState InitFailed)"
    by (simp add: setupMediaPipe_def initialState_def)
  have d: "growth (setupMediaPipe initialState (InitOk Rejected)) = 1
   \<and> \<not> loading (setupMediaPipe initialState (InitOk Rejected))
   \<and> permissionError (setupMediaPipe initialState (InitOk Rejected))
   \<and> \<not> active (distortion (setupMediaPipe initialState (InitOk Rejected)))"
    by (simp add: setupMediaPipe_def startCamera_def initialState_def)
  show ?thesis
    using a b c d activation_stem_at_growth_zero by simp
qed

subsection \<open>Corner spawn and interpolation (C5)\<close>

lemma fract_range: "0 \<le> fract x \<and> fract x < 1"
  unfolding fract_def by linarith

lemma hash_range: "0 \<le> hash p \<and> hash p < 1"
  by (simp add: hash_def fract_range)

lemma jitter_component: "\<bar>(hash p - 0.5) * 0.5\<bar> \<le> 0.25"
proof -
  have "\<bar>hash p - 1/2\<bar> \<le> 1/2"
    using hash_range [of p] by linarith
  then show ?thesis
    by (simp add: abs_mult)
qed

lemma cornerJitter_bound:
  "\<bar>vx (cornerJitter r)\<bar> \<le> 0.25 \<and> \<bar>vy (cornerJitter r)\<bar> \<le> 0.25 \<and> \<bar>vz (cornerJitter r)\<bar> \<le> 0.25"
  unfolding cornerJitter_def vscale_def vsubs_def vec3.sel
  by (intro conjI jitter_component)

lemma floor4_cases:
  assumes "0 \<le> r" "r < 1"
  shows "\<lfloor>r * 4\<rfloor> = 0 \<or> \<lfloor>r * 4\<rfloor> = 1 \<or> \<lfloor>r * 4\<rfloor> = 2 \<or> \<lfloor>r * 4\<rfloor> = (3::int)"
proof -
  have "0 \<le> \<lfloor>r * 4\<rfloor>" using assms by simp
  moreover have "\<lfloor>r * 4\<rfloor> < 4" using assms by (simp add: floor_less_iff)
  ultimately show ?thesis by linarith
qed

lemma cornerBase_select:
  assumes "0 \<le> r" "r < 1"
  shows "cornerBase r = corners ! nat \<lfloor>r * 4\<rfloor>"
proof -
  consider "\<lfloor>r * 4\<rfloor> = 0" | "\<lfloor>r * 4\<rfloor> = 1" | "\<lfloor>r * 4\<rfloor> = 2" | "\<lfloor>r * 4\<rfloor> = 3"
    using floor4_cases [OF assms] by blast
  then show ?thesis
  proof cases
    case 1
    then show ?thesis by (simp add: cornerBase_def glsl_floor_def corners_def)
  next
    case 2
    then show ?thesis by (simp add: cornerBase_def glsl_floor_def corners_def)
  next
    case 3
    then show ?thesis by (simp add: cornerBase_def glsl_floor_def corners_def)
  next
    case 4
    then show ?thesis by (simp add: cornerBase_def glsl_floor_def corners_def)
  qed
qed

lemma smoothstep_range: "e0 < e1 \<Longrightarrow> 0 \<le> smoothstep e0 e1 x \<and> smoothstep e0 e1 x \<le> 1"
proof -
  assume "e0 < e1"
  define t where "t = clamp ((x - e0) / (e1 - e0)) 0 1"
  have t: "0 \<le> t" "t \<le> 1" by (simp_all add: t_def clamp_def)
  have s: "smoothstep e0 e1 x = t * t * (3 - 2 * t)"
    by (simp add: smoothstep_def t_def Let_def)
  have "0 \<le> t * t * (3 - 2 * t)" using t by simp
  moreover have "1 - t * t * (3 - 2 * t) = (1 - t) * (1 - t) * (1 + 2 * t)"
    by (simp add: algebra_simps)
  moreover have "0 \<le> (1 - t) * (1 - t) * (1 + 2 * t)" using t by simp
  ultimately show ?thesis unfolding s by linarith
qed

lemma activation_range: "0 \<le> activation u p \<and> activation u p \<le> 1"
  unfolding activation_def Let_def by (rule smoothstep_range) simp

lemma easeT_power: "a \<le> 1 \<Longrightarrow> easeT a = 1 - (1 - a) ^ 4"
  by (simp add: easeT_def glsl_pow_def)

lemma useFrame_growth_only:
  "useFrame config (Some g) elapsed u = useFrame config (Some g) elapsed u'"
  by (simp add: useFrame_def)

lemma corners_facts:
  "corners = [vec3 12.5 12.5 12.5, vec3 (-12.5) 12.5 12.5, vec3 (-12.5) 12.5 (-12.5),
              vec3 12.5 12.5 (-12.5)]"
  "distinct corners" "length corners = 4" "\<forall>c \<in> set corners. vy c = 12.5"
  by (simp_all add: corners_def boxSize_def)

lemma cornerBase_all_used:
  "cornerBase 0 = corners ! 0 \<and> cornerBase (1/4) = corners ! 1
   \<and> cornerBase (1/2) = corners ! 2 \<and> cornerBase (3/4) = corners ! 3"
  by (simp add: cornerBase_def glsl_floor_def corners_def)

text \<open>
  C5: the position \<open>main\<close> renders is \<open>mix(cornerPos, finalPos, t)\<close>, that is
  \<open>lerp(cornerPos, finalPos, t)\<close> in each component, with \<open>t = 1 - (1 - activation)^4\<close>.
  For a seed in \<open>[0,1)\<close> the corner is entry \<open>floor(seed * 4)\<close> of the four emitters
  \<open>(12.5, 12.5, 12.5)\<close>, \<open>(-12.5, 12.5, 12.5)\<close>, \<open>(-12.5, 12.5, -12.5)\<close>,
  \<open>(12.5, 12.5, -12.5)\<close> (distinct, all at height \<open>12.5\<close>, each one chosen by some
  seed), plus a jitter that is a function of the seed alone with every component at most
  \<open>0.25\<close> in magnitude. The rendered position is a function of the particle, the
  configuration, the growth and the elapsed time: the uniforms of the previous frame
  do not enter.
\<close>

theorem C5_corner_spawn_and_mix:
  assumes "0 \<le> aRandom p" and "aRandom p < 1"
  shows "vPosition (main u p)
           = mix3 (cornerPos (aRandom p)) (finalPos u p) (1 - (1 - activation u p) ^ 4)
         \<and> (\<forall>a b t. mix3 a b t = vec3 (lerp (vx a) (vx b) t) (lerp (vy a) (vy b) t)
                                      (lerp (vz a) (vz b) t))
         \<and> cornerPos (aRandom p)
             = vadd (corners ! nat \<lfloor>aRandom p * 4\<rfloor>) (cornerJitter (aRandom p))
         \<and> nat \<lfloor>aRandom p * 4\<rfloor> < length corners
         \<and> corners = [vec3 12.5 12.5 12.5, vec3 (-12.5) 12.5 12.5, vec3 (-12.5) 12.5 (-12.5),
                       vec3 12.5 12.5 (-12.5)]
         \<and> distinct corners
         \<and> (\<forall>c \<in> set corners. vy c = 12.5)
         \<and> cornerBase 0 = corners ! 0 \<and> cornerBase (1/4) = corners ! 1
         \<and> cornerBase (1/2) = corners ! 2 \<and> cornerBase (3/4) = corners ! 3
         \<and> \<bar>vx (cornerJitter (aRandom p))\<bar> \<le> 0.25
         \<and> \<bar>vy (cornerJitter (aRandom p))\<bar> \<le> 0.25
         \<and> \<bar>vz (cornerJitter (aRandom p))\<bar> \<le> 0.25
         \<and> (\<forall>config g elapsed u0 u1.
               main (useFrame config (Some g) elapsed u0) p
                 = main (useFrame config (Some g) elapsed u1) p)"
proof -
  have pos: "vPosition (main u p)
           = mix3 (cornerPos (aRandom p)) (finalPos u p) (1 - (1 - activation u p) ^ 4)"
    using activation_range [of u p] by (simp add: main_def easeT_power)
  have lerp: "\<forall>a b t. mix3 a b t = vec3 (lerp (vx a) (vx b) t) (lerp (vy a) (vy b) t)
                                      (lerp (vz a) (vz b) t)"
    by (simp add: mix3_def mix_def lerp_def algebra_simps)
  have sel: "cornerPos (aRandom p)
             = vadd (corners ! nat \<lfloor>aRandom p * 4\<rfloor>) (cornerJitter (aRandom p))"
    by (simp add: cornerPos_def cornerBase_select [OF assms])
  have idx: "nat \<lfloor>aRandom p * 4\<rfloor> < length corners"
    using floor4_cases [OF assms] by (auto simp add: corners_facts(3))
  have det: "\<forall>config g elapsed u0 u1.
               main (useFrame config (Some g) elapsed u0) p
                 = main (useFrame config (Some g) elapsed u1) p"
    using useFrame_growth_only by metis
  show ?thesis
    using pos lerp sel idx corners_facts(1,2,4) cornerBase_all_used
      cornerJitter_bound [of "aRandom p"] det
    by blast
qed

theorem C5_witness:
  "0 \<le> aRandom (stemParticle 0 0 (1/2)) \<and> aRandom (stemParticle 0 0 (1/2)) < 1
   \<and> cornerPos (aRandom (stemParticle 0 0 (1/2)))
       = vadd (vec3 (-12.5) 12.5 (-12.5)) (cornerJitter (1/2))
   \<and> vPosition (main (initialUniforms CINEMATIC_CONFIG) (stemParticle 0 0 (1/2)))
       = mix3 (cornerPos (1/2))
           (finalPos (initialUniforms CINEMATIC_CONFIG) (stemParticle 0 0 (1/2)))
           (1 - (1 - activation (initialUniforms CINEMATIC_CONFIG) (stemParticle 0 0 (1/2))) ^ 4)"
proof -
  have h: "0 \<le> aRandom (stemParticle 0 0 (1/2))" "aRandom (stemParticle 0 0 (1/2)) < 1"
    by (simp_all add: stemParticle_fields)
  have c: "corners ! nat \<lfloor>(1/2::real) * 4\<rfloor> = vec3 (-12.5) 12.5 (-12.5)"
    by (simp add: corners_def boxSize_def)
  show ?thesis
    using C5_corner_spawn_and_mix [OF h, of "initialUniforms CINEMATIC_CONFIG"] c
    by (simp add: stemParticle_fields)
qed

subsection \<open>Stem and leaf particles (C10)\<close>

lemma headParticle_type: "aType (headParticle i seed) = 0"
  by (simp add: headParticle_def Let_def)

lemma leafParticle_fields:
  "aType (leafParticle l u r seed) = 2"
  "aRandom (leafParticle l u r seed) = seed"
  "vy (aDirection (leafParticle l u r seed)) = 0"
  "vy (position (leafParticle l u r seed)) = -6 + real l + u * 4.5"
  by (simp_all add: leafParticle_def Let_def)

lemma geometry_all:
  assumes "\<And>i seed. P (headParticle i seed)"
    and "\<And>i r seed. P (stemParticle i r seed)"
    and "\<And>l u r seed. P (leafParticle l u r seed)"
  shows "\<forall>p \<in> set (geometry rnd). P p"
  unfolding geometry_def Let_def using assms by auto

lemma geometry_stem_leaf:
  assumes "p \<in> set (geometry rnd)" "0.5 \<le> aType p"
  shows "(aType p = 1 \<or> aType p = 2) \<and> vy (aDirection p) = 0"
proof -
  have "\<forall>p \<in> set (geometry rnd).
          0.5 \<le> aType p \<longrightarrow> (aType p = 1 \<or> aType p = 2) \<and> vy (aDirection p) = 0"
    by (rule geometry_all)
       (simp_all add: headParticle_type stemParticle_fields leafParticle_fields)
  then show ?thesis
    using assms by blast
qed

lemma finalPos_y_stem_leaf:
  assumes "0.5 \<le> aType p" "vy (aDirection p) = 0"
  shows "vy (finalPos u p) = vy (position p)"
  using assms by (simp add: finalPos_def shapeGeneration_def Let_def vadd_def vscale_def)

text \<open>
  C10: for every particle of the geometry that is not a head particle (type \<open>1\<close>, a
  stem particle, or type \<open>2\<close>, a leaf particle) the direction attribute has a zero
  \<open>y\<close> component, and the shape field keeps the height: \<open>finalPos.y = position.y\<close>
  for all uniforms, hence for every configuration and time. The activation of such a
  particle is \<open>smoothstep(-1, 1, (position.y - scanY) + (seed - 0.5) * 2)\<close>: with the
  scan height taken from the growth it is the same for any two configurations and
  times.
\<close>

theorem C10_stem_leaf_height_fixed:
  "\<forall>p \<in> set (geometry rnd). 0.5 \<le> aType p \<longrightarrow>
     (aType p = 1 \<or> aType p = 2)
     \<and> vy (aDirection p) = 0
     \<and> (\<forall>u. vy (finalPos u p) = vy (position p))
     \<and> (\<forall>u. activation u p
            = smoothstep (-1) 1 ((vy (position p) - uScanY u) + (aRandom p - 0.5) * 2))
     \<and> (\<forall>config config' elapsed elapsed' u0 u0' g.
            activation (useFrame config (Some g) elapsed u0) p
              = activation (useFrame config' (Some g) elapsed' u0') p)"
proof (intro ballI impI)
  fix p
  assume p: "p \<in> set (geometry rnd)" and t: "0.5 \<le> aType p"
  have d: "(aType p = 1 \<or> aType p = 2) \<and> vy (aDirection p) = 0"
    by (rule geometry_stem_leaf [OF p t])
  have y: "\<forall>u. vy (finalPos u p) = vy (position p)"
    using finalPos_y_stem_leaf [OF t] d by blast
  have a: "\<forall>u. activation u p
            = smoothstep (-1) 1 ((vy (position p) - uScanY u) + (aRandom p - 0.5) * 2)"
    using y by (simp add: activation_def)
  have s: "uScanY (useFrame config (Some g) elapsed u0) = scanY g" for config g elapsed u0
    by (simp add: useFrame_def)
  have i: "\<forall>config config' elapsed elapsed' u0 u0' g.
            activation (useFrame config (Some g) elapsed u0) p
              = activation (useFrame config' (Some g) elapsed' u0') p"
    by (simp add: a s)
  show "(aType p = 1 \<or> aType p = 2)
     \<and> vy (aDirection p) = 0
     \<and> (\<forall>u. vy (finalPos u p) = vy (position p))
     \<and> (\<forall>u. activation u p
            = smoothstep (-1) 1 ((vy (position p) - uScanY u) + (aRandom p - 0.5) * 2))
     \<and> (\<forall>config config' elapsed elapsed' u0 u0' g.
            activation (useFrame config (Some g) elapsed u0) p
              = activation (useFrame config' (Some g) elapsed' u0') p)"
    using d y a i by blast
qed

lemma stem0_in_geometry:
  "stemParticle 0 (rnd flowerCount) (rnd (flowerCount + 1)) \<in> set (geometry rnd)"
proof -
  have "(0::nat) \<in> set [0..<stemCount]"
    by (simp add: stemCount_def)
  then have "(\<lambda>i. stemParticle i (rnd (flowerCount + 2 * i)) (rnd (flowerCount + 2 * i + 1))) 0
        \<in> set (map (\<lambda>i. stemParticle i (rnd (flowerCount + 2 * i)) (rnd (flowerCount + 2 * i + 1)))
                 [0..<stemCount])"
    unfolding set_map by (rule imageI)
  then show ?thesis
    by (simp add: geometry_def)
qed

theorem C10_witness:
  "stemParticle 0 (1/2) (1/2) \<in> set (geometry (\<lambda>n. 1/2))
   \<and> 0.5 \<le> aType (stemParticle 0 (1/2) (1/2))
   \<and> vy (finalPos (useFrame CINEMATIC_CONFIG (Some (1/2)) 7 (initialUniforms CINEMATIC_CONFIG))
           (stemParticle 0 (1/2) (1/2))) = -1"
proof -
  have m: "stemParticle 0 (1/2) (1/2) \<in> set (geometry (\<lambda>n. 1/2))"
    using stem0_in_geometry [of "\<lambda>n. 1/2"] by simp
  have t: "0.5 \<le> aType (stemParticle 0 (1/2) (1/2))"
    by (simp add: stemParticle_fields)
  show ?thesis
    using C10_stem_leaf_height_fixed [of "\<lambda>n. 1/2"] m t
    by (auto simp add: stemParticle_fields)
qed

subsection \<open>The distortion state and the rendered position (C1)\<close>

text \<open>
  C1: what the code does. \<open>Rose\<close> reads neither the distortion position nor the
  distortion flag that \<open>RoseExperience\<close> writes on it, and the shader has no uniform
  for them: the rendered output is that of \<open>main\<close> on the frame's uniforms, the same
  for every distortion state, cursor position and earlier cursor, active or not.
\<close>

theorem C1_distortion_not_rendered:
  "RoseExperience config growthRef d hit prev elapsed u p
     = main (useFrame config growthRef elapsed u) p
   \<and> vPosition (RoseExperience config growthRef (d\<lparr> active := True \<rparr>) hit prev elapsed u p)
       = vPosition (RoseExperience config growthRef (d\<lparr> active := False \<rparr>) hit' prev' elapsed u p)"
  by (simp add: RoseExperience_def Rose_def)

subsection \<open>Periodicity of the head displacement (C3)\<close>

lemma getTulipDisplacement_split:
  "getTulipDisplacement u pos = petalTerm u pos + surfaceNoise u pos"
  by (simp add: getTulipDisplacement_def petalTerm_def surfaceNoise_def Let_def)

lemma sin_shift_int: "sin (x + 2 * pi * of_int k) = sin x"
  by (simp add: sin_add)

lemma arctan_polar:
  assumes "a \<noteq> 0"
  shows "cos (arctan (b / a)) = \<bar>a\<bar> / sqrt (a * a + b * b)"
    and "sin (arctan (b / a)) = (b / a) * \<bar>a\<bar> / sqrt (a * a + b * b)"
proof -
  have "1 + (b / a)\<^sup>2 = (a * a + b * b) / (a * a)"
    using assms by (simp add: field_simps power2_eq_square)
  then have r: "sqrt (1 + (b / a)\<^sup>2) = sqrt (a * a + b * b) / \<bar>a\<bar>"
    by (simp add: real_sqrt_divide)
  show "cos (arctan (b / a)) = \<bar>a\<bar> / sqrt (a * a + b * b)"
    by (simp add: cos_arctan r)
  show "sin (arctan (b / a)) = (b / a) * \<bar>a\<bar> / sqrt (a * a + b * b)"
    by (simp add: sin_arctan r)
qed

lemma atan2_polar:
  assumes "a \<noteq> 0 \<or> b \<noteq> 0"
  shows "cos (atan2 b a) = a / sqrt (a * a + b * b)"
    and "sin (atan2 b a) = b / sqrt (a * a + b * b)"
proof -
  consider "0 < a" | "a < 0" "0 \<le> b" | "a < 0" "b < 0" | "a = 0" "0 < b" | "a = 0" "b < 0"
    using assms by linarith
  then have "cos (atan2 b a) = a / sqrt (a * a + b * b) \<and> sin (atan2 b a) = b / sqrt (a * a + b * b)"
  proof cases
    case 1
    then show ?thesis
      using arctan_polar [of a b] by (simp add: atan2_def)
  next
    case 2
    then show ?thesis
      using arctan_polar [of a b] by (simp add: atan2_def)
  next
    case 3
    then show ?thesis
      using arctan_polar [of a b] by (simp add: atan2_def)
  next
    case 4
    then show ?thesis
      by (simp add: atan2_def)
  next
    case 5
    then show ?thesis
      by (simp add: atan2_def)
  qed
  then show "cos (atan2 b a) = a / sqrt (a * a + b * b)"
    and "sin (atan2 b a) = b / sqrt (a * a + b * b)"
    by simp_all
qed

lemma rotate_norm_poly:
  fixes a b c s :: real
  shows "(a * c - b * s) * (a * c - b * s) + (a * s + b * c) * (a * s + b * c)
           = (a * a + b * b) * (s * s + c * c)"
  by algebra

lemma rotate_norm:
  fixes a b \<alpha> :: real
  shows "(a * cos \<alpha> - b * sin \<alpha>) * (a * cos \<alpha> - b * sin \<alpha>)
     + (a * sin \<alpha> + b * cos \<alpha>) * (a * sin \<alpha> + b * cos \<alpha>) = a * a + b * b"
proof -
  have "sin \<alpha> * sin \<alpha> + cos \<alpha> * cos \<alpha> = 1"
    using sin_cos_squared_add [of \<alpha>] by (simp add: power2_eq_square)
  then show ?thesis
    using rotate_norm_poly [of a "cos \<alpha>" b "sin \<alpha>"] by simp
qed

lemma atan2_rotate:
  assumes "a \<noteq> 0 \<or> b \<noteq> 0"
  shows "\<exists>k::int. atan2 (a * sin \<alpha> + b * cos \<alpha>) (a * cos \<alpha> - b * sin \<alpha>)
                   = atan2 b a + \<alpha> + 2 * pi * of_int k"
proof -
  define r where "r = sqrt (a * a + b * b)"
  define a' where "a' = a * cos \<alpha> - b * sin \<alpha>"
  define b' where "b' = a * sin \<alpha> + b * cos \<alpha>"
  have n: "a' * a' + b' * b' = a * a + b * b"
    unfolding a'_def b'_def by (rule rotate_norm)
  have "0 < a * a + b * b"
    using assms by (metis add_pos_nonneg add_nonneg_pos mult_eq_0_iff zero_le_square
        less_eq_real_def)
  then have r: "0 < r" by (simp add: r_def)
  have ne': "a' \<noteq> 0 \<or> b' \<noteq> 0"
  proof (rule ccontr)
    assume "\<not> (a' \<noteq> 0 \<or> b' \<noteq> 0)"
    then have "a' * a' + b' * b' = 0" by simp
    then show False using n \<open>0 < a * a + b * b\<close> by simp
  qed
  have c: "cos (atan2 b a) = a / r" and s: "sin (atan2 b a) = b / r"
    using atan2_polar [OF assms] by (simp_all add: r_def)
  have c': "cos (atan2 b' a') = a' / r" and s': "sin (atan2 b' a') = b' / r"
    using atan2_polar [OF ne'] by (simp_all add: r_def n)
  have e1: "(a / r) * cos \<alpha> - (b / r) * sin \<alpha> = a' / r"
    by (simp add: a'_def diff_divide_distrib)
  have e2: "(b / r) * cos \<alpha> + (a / r) * sin \<alpha> = b' / r"
    by (simp add: b'_def add_divide_distrib)
  have "cos (atan2 b' a' - (atan2 b a + \<alpha>))
          = (a' / r) * ((a / r) * cos \<alpha> - (b / r) * sin \<alpha>)
            + (b' / r) * ((b / r) * cos \<alpha> + (a / r) * sin \<alpha>)"
    by (simp add: cos_diff cos_add sin_add c s c' s')
  also have "\<dots> = (a' / r) * (a' / r) + (b' / r) * (b' / r)"
    by (simp only: e1 e2)
  also have "\<dots> = (a' * a' + b' * b') / (r * r)"
    by (simp add: add_divide_distrib)
  also have "\<dots> = 1"
    using assms \<open>0 < a * a + b * b\<close> by (auto simp add: n r_def)
  finally have "cos (atan2 b' a' - (atan2 b a + \<alpha>)) = 1" .
  then obtain k :: int where "atan2 b' a' - (atan2 b a + \<alpha>) = of_int k * 2 * pi"
    using cos_one_2pi_int by blast
  then have "atan2 b' a' = atan2 b a + \<alpha> + 2 * pi * of_int k"
    by (simp add: algebra_simps)
  then show ?thesis
    unfolding a'_def b'_def by blast
qed

lemma length3_rotateY: "length3 (rotateY \<alpha> p) = length3 p"
proof -
  have "vx (rotateY \<alpha> p) * vx (rotateY \<alpha> p) + vz (rotateY \<alpha> p) * vz (rotateY \<alpha> p)
          = vx p * vx p + vz p * vz p"
    unfolding rotateY_def vec3.sel by (rule rotate_norm)
  then have "vx (rotateY \<alpha> p) * vx (rotateY \<alpha> p) + vy (rotateY \<alpha> p) * vy (rotateY \<alpha> p)
               + vz (rotateY \<alpha> p) * vz (rotateY \<alpha> p)
          = vx p * vx p + vy p * vy p + vz p * vz p"
    by (simp add: rotateY_def)
  then show ?thesis
    by (simp only: length3_def)
qed

lemma normalize3_rotateY:
  "normalize3 (rotateY \<alpha> p)
     = vec3 ((vx p * cos \<alpha> - vz p * sin \<alpha>) / length3 p) (vy p / length3 p)
            ((vx p * sin \<alpha> + vz p * cos \<alpha>) / length3 p)"
  unfolding normalize3_def length3_rotateY by (simp add: rotateY_def)

lemma sin_petals_shift:
  fixes n :: nat
  assumes "0 < n"
  shows "sin ((\<theta> + 2 * pi / real n + 2 * pi * of_int k + c) * real n) = sin ((\<theta> + c) * real n)"
proof -
  have "(\<theta> + 2 * pi / real n + 2 * pi * of_int k + c) * real n
          = (\<theta> + c) * real n + 2 * pi * of_int (1 + k * int n)"
    using assms by (simp add: field_simps)
  then show ?thesis
    by (simp only: sin_shift_int)
qed

lemma azimuth_rotateY:
  fixes n :: nat
  assumes "0 < n"
  shows "sin ((atan2 (vz (normalize3 (rotateY (2 * pi / real n) p)))
                     (vx (normalize3 (rotateY (2 * pi / real n) p))) + c) * real n)
         = sin ((atan2 (vz (normalize3 p)) (vx (normalize3 p)) + c) * real n)"
proof -
  define L where "L = length3 p"
  define a where "a = vx p / L"
  define b where "b = vz p / L"
  define \<alpha> where "\<alpha> = 2 * pi / real n"
  have x': "vx (normalize3 (rotateY \<alpha> p)) = a * cos \<alpha> - b * sin \<alpha>"
    by (simp add: normalize3_rotateY a_def b_def L_def diff_divide_distrib)
  have z': "vz (normalize3 (rotateY \<alpha> p)) = a * sin \<alpha> + b * cos \<alpha>"
    by (simp add: normalize3_rotateY a_def b_def L_def add_divide_distrib)
  have x: "vx (normalize3 p) = a" and z: "vz (normalize3 p) = b"
    by (simp_all add: normalize3_def a_def b_def L_def)
  show ?thesis
  proof (cases "a \<noteq> 0 \<or> b \<noteq> 0")
    case True
    obtain k :: int where "atan2 (a * sin \<alpha> + b * cos \<alpha>) (a * cos \<alpha> - b * sin \<alpha>)
                   = atan2 b a + \<alpha> + 2 * pi * of_int k"
      using atan2_rotate [OF True] by blast
    then have "sin ((atan2 (a * sin \<alpha> + b * cos \<alpha>) (a * cos \<alpha> - b * sin \<alpha>) + c) * real n)
                 = sin ((atan2 b a + 2 * pi / real n + 2 * pi * of_int k + c) * real n)"
      by (simp add: \<alpha>_def)
    also have "\<dots> = sin ((atan2 b a + c) * real n)"
      by (rule sin_petals_shift [OF assms])
    finally show ?thesis
      unfolding \<alpha>_def [symmetric] x' z' x z .
  next
    case False
    then have "a = 0" "b = 0" by simp_all
    then show ?thesis
      unfolding \<alpha>_def [symmetric] x' z' x z by simp
  qed
qed

lemma petalTerm_rotateY:
  fixes n :: nat
  assumes "0 < n" and "uPetalCount u = real n"
  shows "petalTerm u (rotateY (2 * pi / uPetalCount u) pos) = petalTerm u pos"
proof -
  have y: "vy (normalize3 (rotateY (2 * pi / real n) pos)) = vy (normalize3 pos)"
    unfolding normalize3_rotateY by (simp add: normalize3_def)
  show ?thesis
    unfolding petalTerm_def Let_def assms(2) y
    by (simp only: azimuth_rotateY [OF assms(1)])
qed

lemma cos_sin_four_thirds_pi:
  "cos (4 * pi / 3) = - (1 / 2)" "sin (4 * pi / 3) = - (sqrt 3 / 2)"
proof -
  have e: "4 * pi / 3 = pi / 3 + pi" by simp
  show "cos (4 * pi / 3) = - (1 / 2)"
    unfolding e cos_periodic_pi by (simp add: cos_60)
  show "sin (4 * pi / 3) = - (sqrt 3 / 2)"
    unfolding e sin_periodic_pi by (simp add: sin_60)
qed

lemma arctan_sqrt_3: "arctan (sqrt 3) = pi / 3"
proof (rule arctan_unique)
  show "- (pi / 2) < pi / 3" using pi_gt_zero by linarith
  show "pi / 3 < pi / 2" using pi_gt_zero by linarith
  show "tan (pi / 3) = sqrt 3" by (rule tan_60)
qed

lemma rotateY_example:
  "rotateY (2 * pi / uPetalCount fractionalPetals) (vec3 (-1) 1 0) = vec3 (1/2) 1 (sqrt 3 / 2)"
proof -
  have e: "2 * pi / uPetalCount fractionalPetals = 4 * pi / 3"
    by (simp add: fractionalPetals_def)
  show ?thesis
    unfolding e rotateY_def vec3.sel cos_sin_four_thirds_pi by simp
qed

lemma petalTerm_example_base: "petalTerm fractionalPetals (vec3 (-1) 1 0) = - 0.15"
proof -
  have l: "0 < length3 (vec3 (-1) 1 0)"
    by (simp add: length3_def)
  have "atan2 (vz (normalize3 (vec3 (-1) 1 0))) (vx (normalize3 (vec3 (-1) 1 0))) = pi"
    using l by (simp add: normalize3_def atan2_def)
  moreover have "sin (pi * 3 / 2) = - 1"
  proof -
    have "pi * 3 / 2 = 3 / 2 * pi" by simp
    then show ?thesis by (simp only: sin_3over2_pi)
  qed
  ultimately show ?thesis
    by (simp add: petalTerm_def fractionalPetals_def Let_def)
qed

lemma petalTerm_example_rotated: "petalTerm fractionalPetals (vec3 (1/2) 1 (sqrt 3 / 2)) = 0.15"
proof -
  define L where "L = length3 (vec3 (1/2) 1 (sqrt 3 / 2))"
  have l: "0 < L"
    by (simp add: L_def length3_def)
  have "(sqrt 3 / 2 / L) / (1 / 2 / L) = sqrt 3"
    using l by simp
  then have "atan2 (sqrt 3 / 2 / L) (1 / 2 / L) = pi / 3"
    using l by (simp add: atan2_def arctan_sqrt_3)
  then have "atan2 (vz (normalize3 (vec3 (1/2) 1 (sqrt 3 / 2))))
                   (vx (normalize3 (vec3 (1/2) 1 (sqrt 3 / 2)))) = pi / 3"
    by (simp add: normalize3_def L_def)
  moreover have "sin (pi / 3 * (3 / 2)) = 1"
    by simp
  ultimately show ?thesis
    by (simp add: petalTerm_def fractionalPetals_def Let_def)
qed

lemma arctan_partial_sums:
  fixes x :: real
  assumes "0 \<le> x" "x \<le> 1"
  shows "(\<Sum>i<2 * n. (- 1) ^ i * (1 / real (i * 2 + 1) * x ^ (i * 2 + 1))) \<le> arctan x"
    and "arctan x \<le> (\<Sum>i<2 * n + 1. (- 1) ^ i * (1 / real (i * 2 + 1) * x ^ (i * 2 + 1)))"
proof -
  define a where "a = (\<lambda>i. 1 / real (i * 2 + 1) * x ^ (i * 2 + 1))"
  have ax: "\<bar>x\<bar> \<le> 1" using assms by simp
  have zero: "a \<longlonglongrightarrow> 0"
    unfolding a_def by (rule zeroseq_arctan_series [OF ax])
  have pos: "0 \<le> a i" for i
    unfolding a_def using assms by simp
  have mono: "a (Suc i) \<le> a i" for i
  proof -
    have "x ^ (Suc i * 2 + 1) \<le> x ^ (i * 2 + 1)"
      using assms by (intro power_decreasing) simp_all
    moreover have "1 / real (Suc i * 2 + 1) \<le> 1 / real (i * 2 + 1)"
      by (simp add: field_simps)
    ultimately show ?thesis
      unfolding a_def using assms by (intro mult_mono) simp_all
  qed
  have s: "arctan x = (\<Sum>i. (- 1) ^ i * a i)"
    unfolding a_def by (rule arctan_series [OF ax])
  show "(\<Sum>i<2 * n. (- 1) ^ i * (1 / real (i * 2 + 1) * x ^ (i * 2 + 1))) \<le> arctan x"
    unfolding s using summable_Leibniz'(2) [OF zero pos mono, of n] by (simp add: a_def)
  show "arctan x \<le> (\<Sum>i<2 * n + 1. (- 1) ^ i * (1 / real (i * 2 + 1) * x ^ (i * 2 + 1)))"
    unfolding s using summable_Leibniz'(4) [OF zero pos mono, of n] by (simp add: a_def)
qed

lemma arctan_fifth_bounds:
  "(1973955597 / 10000000000 :: real) < arctan (1 / 5)"
  "arctan (1 / 5) < (1973955617 / 10000000000 :: real)"
proof -
  have "(\<Sum>i<2 * 3. (- 1) ^ i * (1 / real (i * 2 + 1) * (1 / 5 :: real) ^ (i * 2 + 1)))
          \<le> arctan (1 / 5)"
    by (rule arctan_partial_sums(1)) simp_all
  moreover have "(1973955597 / 10000000000 :: real)
      < (\<Sum>i<2 * 3. (- 1) ^ i * (1 / real (i * 2 + 1) * (1 / 5 :: real) ^ (i * 2 + 1)))"
    by (simp add: eval_nat_numeral)
  ultimately show "(1973955597 / 10000000000 :: real) < arctan (1 / 5)"
    by linarith
  have "arctan (1 / 5)
     \<le> (\<Sum>i<2 * 2 + 1. (- 1) ^ i * (1 / real (i * 2 + 1) * (1 / 5 :: real) ^ (i * 2 + 1)))"
    by (rule arctan_partial_sums(2)) simp_all
  moreover have "(\<Sum>i<2 * 2 + 1. (- 1) ^ i * (1 / real (i * 2 + 1) * (1 / 5 :: real) ^ (i * 2 + 1)))
      < (1973955617 / 10000000000 :: real)"
    by (simp add: eval_nat_numeral)
  ultimately show "arctan (1 / 5) < (1973955617 / 10000000000 :: real)"
    by linarith
qed

lemma arctan_239_bounds:
  "(41840760 / 10000000000 :: real) < arctan (1 / 239)"
  "arctan (1 / 239) < (41840761 / 10000000000 :: real)"
proof -
  have "(\<Sum>i<2 * 1. (- 1) ^ i * (1 / real (i * 2 + 1) * (1 / 239 :: real) ^ (i * 2 + 1)))
          \<le> arctan (1 / 239)"
    by (rule arctan_partial_sums(1)) simp_all
  moreover have "(41840760 / 10000000000 :: real)
      < (\<Sum>i<2 * 1. (- 1) ^ i * (1 / real (i * 2 + 1) * (1 / 239 :: real) ^ (i * 2 + 1)))"
    by (simp add: eval_nat_numeral)
  ultimately show "(41840760 / 10000000000 :: real) < arctan (1 / 239)"
    by linarith
  have "arctan (1 / 239)
     \<le> (\<Sum>i<2 * 1 + 1. (- 1) ^ i * (1 / real (i * 2 + 1) * (1 / 239 :: real) ^ (i * 2 + 1)))"
    by (rule arctan_partial_sums(2)) simp_all
  moreover have "(\<Sum>i<2 * 1 + 1. (- 1) ^ i * (1 / real (i * 2 + 1) * (1 / 239 :: real) ^ (i * 2 + 1)))
      < (41840761 / 10000000000 :: real)"
    by (simp add: eval_nat_numeral)
  ultimately show "arctan (1 / 239) < (41840761 / 10000000000 :: real)"
    by linarith
qed

lemma pi_seven_digits: "3.1415926 < pi" "pi < 3.141593"
proof -
  have m: "pi = 16 * arctan (1 / 5) - 4 * arctan (1 / 239)"
    using machin by simp
  show "3.1415926 < pi"
    unfolding m using arctan_fifth_bounds(1) arctan_239_bounds(2) by simp
  show "pi < 3.141593"
    unfolding m using arctan_fifth_bounds(2) arctan_239_bounds(1) by simp
qed

lemma sin_taylor_nine:
  fixes x :: real
  assumes "0 < x"
  shows "\<bar>sin x - (x - x ^ 3 / 6 + x ^ 5 / 120 - x ^ 7 / 5040 + x ^ 9 / 362880)\<bar>
           \<le> x ^ 10 / 3628800"
proof -
  obtain t where t: "sin x = (\<Sum>m<10. sin_coeff m * x ^ m)
                       + (sin (t + 1 / 2 * real (10::nat) * pi) / fact 10) * x ^ 10"
    using Maclaurin_sin_expansion3 [of 10 x] assms by auto
  have c: "sin_coeff 0 = 0" "sin_coeff 1 = 1" "sin_coeff 2 = 0" "sin_coeff 3 = - 1 / 6"
    "sin_coeff 4 = 0" "sin_coeff 5 = 1 / 120" "sin_coeff 6 = 0" "sin_coeff 7 = - 1 / 5040"
    "sin_coeff 8 = 0" "sin_coeff 9 = 1 / 362880" "sin_coeff (Suc 0) = 1"
    by (simp_all add: sin_coeff_def fact_numeral)
  have i: "{..<10::nat} = {0, 1, 2, 3, 4, 5, 6, 7, 8, 9}"
    by auto
  have p: "(\<Sum>m<10. sin_coeff m * x ^ m)
             = x - x ^ 3 / 6 + x ^ 5 / 120 - x ^ 7 / 5040 + x ^ 9 / 362880"
    unfolding i by (simp add: c)
  have f: "fact 10 = (3628800::real)"
    by (simp add: fact_numeral)
  have "\<bar>sin (t + 1 / 2 * real (10::nat) * pi) / fact 10 * x ^ 10\<bar>
          = \<bar>sin (t + 1 / 2 * real (10::nat) * pi)\<bar> * (x ^ 10 / 3628800)"
    using assms by (simp add: abs_mult f)
  also have "\<dots> \<le> 1 * (x ^ 10 / 3628800)"
    using assms by (intro mult_right_mono) simp_all
  finally have r: "\<bar>sin (t + 1 / 2 * real (10::nat) * pi) / fact 10 * x ^ 10\<bar>
                     \<le> x ^ 10 / 3628800"
    by simp
  have "sin x - (x - x ^ 3 / 6 + x ^ 5 / 120 - x ^ 7 / 5040 + x ^ 9 / 362880)
          = sin (t + 1 / 2 * real (10::nat) * pi) / fact 10 * x ^ 10"
    unfolding p [symmetric] using t by simp
  then show ?thesis
    using r by simp
qed

lemma sin_hash_argument:
  "179795000 / 437585453 < sin (12.9898 :: real)" "sin (12.9898 :: real) < 179800000 / 437585453"
proof -
  define d :: real where "d = 12.9898 - 4 * pi"
  have d: "0.423428 < d" "d < 0.4234296"
    using pi_seven_digits by (simp_all add: d_def)
  have s: "sin (12.9898 :: real) = sin d"
  proof -
    have "(12.9898 :: real) = d + 2 * pi + 2 * pi" by (simp add: d_def)
    then show ?thesis by (simp only: sin_periodic)
  qed
  have h: "d \<le> pi / 2" "0.4234296 \<le> pi / 2" "- (pi / 2) \<le> d" "- (pi / 2) \<le> (0.423428::real)"
    using d pi_seven_digits by simp_all
  have lo: "sin (0.423428 :: real) \<le> sin d"
    using d h by (intro sin_monotone_2pi_le) simp_all
  have hi: "sin d \<le> sin (0.4234296 :: real)"
    using d h by (intro sin_monotone_2pi_le) simp_all
  have tl: "\<bar>sin (0.423428 :: real) - (0.423428 - 0.423428 ^ 3 / 6 + 0.423428 ^ 5 / 120
                - 0.423428 ^ 7 / 5040 + 0.423428 ^ 9 / 362880)\<bar> \<le> 0.423428 ^ 10 / 3628800"
    by (rule sin_taylor_nine) simp
  have th: "\<bar>sin (0.4234296 :: real) - (0.4234296 - 0.4234296 ^ 3 / 6 + 0.4234296 ^ 5 / 120
                - 0.4234296 ^ 7 / 5040 + 0.4234296 ^ 9 / 362880)\<bar> \<le> 0.4234296 ^ 10 / 3628800"
    by (rule sin_taylor_nine) simp
  have nl: "(179795000 / 437585453 :: real)
              < (0.423428 - 0.423428 ^ 3 / 6 + 0.423428 ^ 5 / 120
                - 0.423428 ^ 7 / 5040 + 0.423428 ^ 9 / 362880) - 0.423428 ^ 10 / 3628800"
    by (simp add: power_divide)
  have nh: "(0.4234296 - 0.4234296 ^ 3 / 6 + 0.4234296 ^ 5 / 120
                - 0.4234296 ^ 7 / 5040 + 0.4234296 ^ 9 / 362880) + 0.4234296 ^ 10 / 3628800
              < (179800000 / 437585453 :: real)"
    by (simp add: power_divide)
  show "179795000 / 437585453 < sin (12.9898 :: real)"
    unfolding s using lo tl nl by linarith
  show "sin (12.9898 :: real) < 179800000 / 437585453"
    unfolding s using hi th nh by linarith
qed

lemma hash_east_west:
  "1 / 2 < hash (vec2 1 0)" "hash (vec2 (-1) 0) < 1 / 2"
proof -
  define a :: real where "a = sin 12.9898 * 43758.5453"
  have a: "17979.5 < a" "a < 17980"
    using sin_hash_argument by (simp_all add: a_def field_simps)
  have f: "\<lfloor>a\<rfloor> = 17979"
    using a by (intro floor_unique) simp_all
  have g: "\<lfloor>- a\<rfloor> = - 17980"
    using a by (intro floor_unique) simp_all
  have "hash (vec2 1 0) = fract a"
    by (simp add: hash_def dot2_def a_def)
  then show "1 / 2 < hash (vec2 1 0)"
    using a by (simp add: fract_def f)
  have "hash (vec2 (-1) 0) = fract (- a)"
    by (simp add: hash_def dot2_def a_def)
  then show "hash (vec2 (-1) 0) < 1 / 2"
    using a by (simp add: fract_def g)
qed

lemma noise_lattice: "noise (vec2 (of_int i) (of_int j)) = hash (vec2 (of_int i) (of_int j))"
  by (simp add: noise_def glsl_floor_def fract_def mix_def)

lemma surfaceNoise_east_west:
  "surfaceNoise twoPetals (vec3 (- (1/4)) y 0) < surfaceNoise twoPetals (vec3 (1/4) y 0)"
proof -
  have e: "noise (vec2 1 0) = hash (vec2 1 0)"
    using noise_lattice [of 1 0] by simp
  have w: "noise (vec2 (-1) 0) = hash (vec2 (-1) 0)"
    using noise_lattice [of "-1" 0] by simp
  have "noise (vec2 (-1) 0) < noise (vec2 1 0)"
    unfolding e w using hash_east_west by linarith
  then show ?thesis
    by (simp add: surfaceNoise_def twoPetals_def initialUniforms_def CINEMATIC_CONFIG_def)
qed

lemma rotateY_half_turn:
  "rotateY (2 * pi / uPetalCount twoPetals) (vec3 (1/4) y 0) = vec3 (- (1/4)) y 0"
  by (simp add: rotateY_def twoPetals_def)

lemma displacement_two_petals:
  "getTulipDisplacement twoPetals (rotateY (2 * pi / uPetalCount twoPetals) (vec3 (1/4) y 0))
     < getTulipDisplacement twoPetals (vec3 (1/4) y 0)"
proof -
  have n: "uPetalCount twoPetals = real 2"
    by (simp add: twoPetals_def)
  have "petalTerm twoPetals (rotateY (2 * pi / uPetalCount twoPetals) (vec3 (1/4) y 0))
          = petalTerm twoPetals (vec3 (1/4) y 0)"
    by (rule petalTerm_rotateY [OF _ n]) simp
  then show ?thesis
    using surfaceNoise_east_west [of y]
    by (simp add: getTulipDisplacement_split rotateY_half_turn)
qed

text \<open>
  C3 as stated fails: the displacement is not periodic for every parameter setting. With one and a half
  petals (and no twist, bloom or noise) the position \<open>(-1, 1, 0)\<close>, of azimuth
  \<open>pi\<close>, has displacement \<open>-0.15\<close>, and its rotation by \<open>2 * pi / 1.5\<close> has \<open>0.15\<close>:
  the azimuth is taken in \<open>(-pi, pi]\<close>, and the jump of \<open>2 * pi\<close> across the cut is a
  whole number of petal periods only when \<open>petalCount\<close> is whole. With two petals and
  the \<open>detail\<close> of the application, at time \<open>0\<close>, the positions \<open>(1/4, y, 0)\<close> and its
  half turn \<open>(-1/4, y, 0)\<close> fall on the noise lattice points \<open>(1, 0)\<close> and \<open>(-1, 0)\<close>,
  whose hashes differ, so the surface noise breaks the period.
\<close>

theorem C3_counterexample:
  "(0 < uPetalCount fractionalPetals
    \<and> getTulipDisplacement fractionalPetals
         (rotateY (2 * pi / uPetalCount fractionalPetals) (vec3 (-1) 1 0)) = 0.15
    \<and> getTulipDisplacement fractionalPetals (vec3 (-1) 1 0) = - 0.15
    \<and> getTulipDisplacement fractionalPetals
         (rotateY (2 * pi / uPetalCount fractionalPetals) (vec3 (-1) 1 0))
        \<noteq> getTulipDisplacement fractionalPetals (vec3 (-1) 1 0))
   \<and> (0 < uPetalCount twoPetals
    \<and> getTulipDisplacement twoPetals
         (rotateY (2 * pi / uPetalCount twoPetals) (vec3 (1/4) (1 + sqrt 15 / 2) 0))
        \<noteq> getTulipDisplacement twoPetals (vec3 (1/4) (1 + sqrt 15 / 2) 0))"
proof -
  have n: "surfaceNoise fractionalPetals p = 0" for p
    by (simp add: surfaceNoise_def fractionalPetals_def)
  have a: "0 < uPetalCount fractionalPetals
    \<and> getTulipDisplacement fractionalPetals
         (rotateY (2 * pi / uPetalCount fractionalPetals) (vec3 (-1) 1 0)) = 0.15
    \<and> getTulipDisplacement fractionalPetals (vec3 (-1) 1 0) = - 0.15
    \<and> getTulipDisplacement fractionalPetals
         (rotateY (2 * pi / uPetalCount fractionalPetals) (vec3 (-1) 1 0))
        \<noteq> getTulipDisplacement fractionalPetals (vec3 (-1) 1 0)"
    unfolding rotateY_example getTulipDisplacement_split n
    by (simp add: petalTerm_example_base petalTerm_example_rotated) (simp add: fractionalPetals_def)
  have b: "0 < uPetalCount twoPetals
    \<and> getTulipDisplacement twoPetals
         (rotateY (2 * pi / uPetalCount twoPetals) (vec3 (1/4) (1 + sqrt 15 / 2) 0))
        \<noteq> getTulipDisplacement twoPetals (vec3 (1/4) (1 + sqrt 15 / 2) 0)"
    using displacement_two_petals [of "1 + sqrt 15 / 2"] by (simp add: twoPetals_def)
  show ?thesis
    using a b by blast
qed

text \<open>
  C3 (as amended): when \<open>petalCount\<close> is a positive whole number, rotating the base
  position about the vertical axis by \<open>2 * pi / petalCount\<close> (the height and the
  distance from the origin stay, so the polar angle does) leaves the petal part of the
  head displacement, the displacement without its surface-noise term, unchanged, for
  every position, twist, openness and time; with \<open>detail = 0\<close> the displacement itself
  is unchanged.
\<close>

theorem C3_petal_displacement_periodic:
  fixes n :: nat
  assumes "0 < n" and "uPetalCount u = real n"
  shows "getTulipDisplacement u (rotateY (2 * pi / uPetalCount u) pos)
           - surfaceNoise u (rotateY (2 * pi / uPetalCount u) pos)
         = getTulipDisplacement u pos - surfaceNoise u pos
         \<and> (uDetail u = 0 \<longrightarrow>
              getTulipDisplacement u (rotateY (2 * pi / uPetalCount u) pos)
                = getTulipDisplacement u pos)
         \<and> vy (rotateY (2 * pi / uPetalCount u) pos) = vy pos
         \<and> length3 (rotateY (2 * pi / uPetalCount u) pos) = length3 pos"
proof -
  have p: "petalTerm u (rotateY (2 * pi / uPetalCount u) pos) = petalTerm u pos"
    by (rule petalTerm_rotateY [OF assms])
  have z: "uDetail u = 0 \<Longrightarrow> surfaceNoise u q = 0" for q
    by (simp add: surfaceNoise_def)
  have y: "vy (rotateY (2 * pi / uPetalCount u) pos) = vy pos"
    by (simp add: rotateY_def)
  show ?thesis
    using p z y length3_rotateY [of "2 * pi / uPetalCount u" pos]
    by (simp add: getTulipDisplacement_split)
qed

theorem C3_witness:
  "0 < (3::nat)
   \<and> uPetalCount ((initialUniforms CINEMATIC_CONFIG)\<lparr> uDetail := 0 \<rparr>) = real 3
   \<and> uDetail ((initialUniforms CINEMATIC_CONFIG)\<lparr> uDetail := 0 \<rparr>) = 0
   \<and> getTulipDisplacement ((initialUniforms CINEMATIC_CONFIG)\<lparr> uDetail := 0 \<rparr>)
         (rotateY (2 * pi / 3) (vec3 (-1) 1 0))
       = getTulipDisplacement ((initialUniforms CINEMATIC_CONFIG)\<lparr> uDetail := 0 \<rparr>)
           (vec3 (-1) 1 0)"
proof -
  have h: "0 < (3::nat)"
    "uPetalCount ((initialUniforms CINEMATIC_CONFIG)\<lparr> uDetail := 0 \<rparr>) = real 3"
    by (simp_all add: initialUniforms_def CINEMATIC_CONFIG_def)
  show ?thesis
    using C3_petal_displacement_periodic [OF h, of "vec3 (-1) 1 0"] h
    by simp
qed

end
